theory Spec2Isabelle
  imports Complex_Main "HOL-Library.Log_Nat" "HOL-Library.Multiset"
begin

section \<open>JavaScript numbers\<close>

text \<open>
  A TypeScript \<open>number\<close> is an IEEE 754 binary64 value. The model keeps the three
  kinds of value that the arithmetic of the program can tell apart: NaN, the two
  infinities, and the finite values, which are rationals. Every arithmetic operation
  computes the exact rational result and rounds it to the nearest double, ties to
  even (\<open>fl\<close>); a result whose rounded magnitude reaches \<open>2 ^ 1024\<close> overflows to an
  infinity, and results below the normal range are rounded on the subnormal grid
  \<open>2 powi (- 1074)\<close>. The sign of a zero is not tracked: \<open>-0\<close> and \<open>+0\<close> are
  both \<open>Fin 0\<close> (they are equal under \<open>===\<close>, and no divisor of the program is zero).
\<close>

datatype number = NaN | PInf | NInf | Fin rat

text \<open>The binary exponent of a positive rational: \<open>2 powi ilog2 q \<le> q < 2 powi (ilog2 q + 1)\<close>.\<close>

definition ilog2 :: "rat \<Rightarrow> int" where
  "ilog2 q = (case quotient_of q of (a, b) \<Rightarrow>
     (let k = int (floorlog 2 (nat a)) - int (floorlog 2 (nat b))
      in if 2 powi k \<le> q then k else k - 1))"

definition roundHalfEven :: "rat \<Rightarrow> int" where
  "roundHalfEven x = (let f = \<lfloor>x\<rfloor>; d = x - of_int f
     in if d < 1 / 2 then f else if 1 / 2 < d then f + 1
        else if even f then f else f + 1)"

text \<open>Rounding of a positive magnitude to 53 significant bits (fewer below \<open>2 powi (- 1022)\<close>).\<close>

definition roundMagnitude :: "rat \<Rightarrow> rat" where
  "roundMagnitude q = (let e = max (ilog2 q) (- 1022) - 52
     in of_int (roundHalfEven (q / 2 powi e)) * 2 powi e)"

definition fl :: "rat \<Rightarrow> number" where
  "fl q = (if q = 0 then Fin 0
     else let r = roundMagnitude \<bar>q\<bar>
          in if 2 ^ 1024 \<le> r then (if q < 0 then NInf else PInf)
             else Fin (if q < 0 then - r else r))"

definition isNeg :: "number \<Rightarrow> bool" where
  "isNeg x = (case x of NInf \<Rightarrow> True | Fin a \<Rightarrow> a < 0 | _ \<Rightarrow> False)"

text \<open>\<open>x + y\<close>, \<open>x - y\<close>, \<open>x * y\<close>, \<open>x / y\<close> and \<open>x > y\<close> on numbers.\<close>

fun fadd :: "number \<Rightarrow> number \<Rightarrow> number" where
  "fadd (Fin a) (Fin b) = fl (a + b)"
| "fadd NaN _ = NaN"
| "fadd _ NaN = NaN"
| "fadd PInf NInf = NaN"
| "fadd NInf PInf = NaN"
| "fadd PInf _ = PInf"
| "fadd NInf _ = NInf"
| "fadd (Fin a) y = y"

fun fsub :: "number \<Rightarrow> number \<Rightarrow> number" where
  "fsub (Fin a) (Fin b) = fl (a - b)"
| "fsub NaN _ = NaN"
| "fsub _ NaN = NaN"
| "fsub PInf PInf = NaN"
| "fsub NInf NInf = NaN"
| "fsub PInf _ = PInf"
| "fsub NInf _ = NInf"
| "fsub (Fin a) PInf = NInf"
| "fsub (Fin a) NInf = PInf"

fun fmul :: "number \<Rightarrow> number \<Rightarrow> number" where
  "fmul (Fin a) (Fin b) = fl (a * b)"
| "fmul NaN _ = NaN"
| "fmul _ NaN = NaN"
| "fmul x y = (if x = Fin 0 \<or> y = Fin 0 then NaN
               else if isNeg x = isNeg y then PInf else NInf)"

fun fdiv :: "number \<Rightarrow> number \<Rightarrow> number" where
  "fdiv (Fin a) (Fin b) =
     (if b = 0 then (if a = 0 then NaN else if 0 < a then PInf else NInf)
      else fl (a / b))"
| "fdiv NaN _ = NaN"
| "fdiv _ NaN = NaN"
| "fdiv (Fin a) _ = Fin 0"
| "fdiv x (Fin b) = (if isNeg x = (b < 0) then PInf else NInf)"
| "fdiv _ _ = NaN"

fun fgt :: "number \<Rightarrow> number \<Rightarrow> bool" where
  "fgt (Fin a) (Fin b) = (b < a)"
| "fgt NaN _ = False"
| "fgt _ NaN = False"
| "fgt PInf PInf = False"
| "fgt PInf _ = True"
| "fgt _ PInf = False"
| "fgt NInf _ = False"
| "fgt (Fin a) NInf = True"

text \<open>\<open>x || y\<close> on numbers: the falsy numbers are NaN and zero.\<close>

definition orElse :: "number \<Rightarrow> number \<Rightarrow> number" where
  "orElse x y = (if x = NaN \<or> x = Fin 0 then y else x)"

text \<open>\<open>Number.isFinite\<close>.\<close>

definition isFinite :: "number \<Rightarrow> bool" where
  "isFinite x = (case x of Fin _ \<Rightarrow> True | _ \<Rightarrow> False)"

text \<open>A finite input of modest size: zero, or of magnitude between \<open>2 powi (- 400)\<close> and \<open>2 ^ 400\<close>.\<close>

definition moderate :: "number \<Rightarrow> bool" where
  "moderate x = (case x of Fin q \<Rightarrow> q = 0 \<or> (2 powi (- 400) \<le> \<bar>q\<bar> \<and> \<bar>q\<bar> \<le> 2 ^ 400) | _ \<Rightarrow> False)"


section \<open>The data model (types.ts)\<close>

text \<open>
  The string enums of \<open>types.ts\<close> are plain strings at run time, and the import
  parser stores unchecked strings in enum-typed fields (through \<open>as\<close> casts), so an
  enum-typed field is a string here and the enum members are named constants.
\<close>

type_synonym Currency = string

definition TRY :: Currency where "TRY = ''TRY''"
definition USD :: Currency where "USD = ''USD''"

type_synonym InvestmentType = string

definition PARTICIPATION :: InvestmentType where "PARTICIPATION = ''Participation Account''"
definition SUKUK :: InvestmentType where "SUKUK = ''Sukuk (Lease Certificate)''"
definition GOLD :: InvestmentType where "GOLD = ''Gold Account''"
definition REAL_ESTATE :: InvestmentType where "REAL_ESTATE = ''Real Estate Fund''"

type_synonym TransactionType = string

definition USER_DEPOSIT :: TransactionType where "USER_DEPOSIT = ''USER_DEPOSIT''"
definition BANK_PROFIT :: TransactionType where "BANK_PROFIT = ''BANK_PROFIT''"
definition WITHDRAWAL :: TransactionType where "WITHDRAWAL = ''WITHDRAWAL''"
definition MIXED :: TransactionType where "MIXED = ''MIXED''"

subsection \<open>The profit classifier (utils/calculations.ts)\<close>

text \<open>
  \<open>calculateProfitStats\<close> with its four arguments. The defaults \<open>0\<close> of the last two
  parameters apply to a call that omits them; every call in the program passes all
  four.
\<close>

record ProfitStats =
  profitAmount :: number
  profitPercentage :: number
  type :: TransactionType

definition calculateProfitStats :: "number \<Rightarrow> number \<Rightarrow> number \<Rightarrow> number \<Rightarrow> ProfitStats" where
  "calculateProfitStats prevBalance currBalance userDeposit withdrawal =
     (let diff = fsub currBalance prevBalance;
          netExternalFlow = fsub userDeposit withdrawal;
          profitAmount = fsub diff netExternalFlow;
          base = (if fgt prevBalance (Fin 0) then prevBalance
                  else (if fgt userDeposit (Fin 0) then userDeposit else Fin 1));
          profitPercentage = fmul (fdiv profitAmount base) (Fin 100);
          type = (if fgt withdrawal (Fin 0) then WITHDRAWAL
                  else if fgt userDeposit (Fin 0) \<and> fgt profitAmount (Fin 0) then MIXED
                  else if fgt userDeposit (Fin 0) then USER_DEPOSIT
                  else BANK_PROFIT)
      in \<lparr>profitAmount = profitAmount, profitPercentage = profitPercentage, type = type\<rparr>)"

text \<open>The divisor that \<open>calculateProfitStats\<close> binds to \<open>base\<close>.\<close>

definition profitBase :: "number \<Rightarrow> number \<Rightarrow> number" where
  "profitBase prevBalance userDeposit =
     (if fgt prevBalance (Fin 0) then prevBalance
      else (if fgt userDeposit (Fin 0) then userDeposit else Fin 1))"


subsection \<open>Accounts and transactions\<close>

record Account =
  id :: string
  bankName :: string
  currency :: Currency
  investmentType :: InvestmentType
  startDate :: string
  maturityPeriod :: number
  riskLevel :: string
  currentBalance :: number
  initialCapital :: number

record Transaction =
  id :: string
  accountId :: string
  date :: string
  previousBalance :: number
  currentBalance :: number
  userDeposit :: number
  withdrawal :: number
  calculatedProfit :: number
  profitPercentage :: number
  type :: TransactionType


section \<open>The chain healer (healTransactionChain)\<close>

text \<open>
  \<open>Array.prototype.sort\<close> with a comparator. ECMAScript requires the sort to be
  stable and, for a consistent comparator, to return the elements in comparator
  order; for an inconsistent comparator the order is implementation-defined. The
  model is the straight insertion sort: each element in turn enters at the right end
  of the sorted prefix and moves left past every element \<open>y\<close> with \<open>cmp y x > 0\<close>. The
  sorted prefix is kept in reverse, so the walk from the right end of the array is the
  walk down the list. A comparator result that is NaN is not \<open>> 0\<close>, which is the
  treatment of NaN as \<open>+0\<close> that ECMAScript prescribes. Where every date is valid the
  comparator is consistent and the model is the stable sort by time value, which is
  what every conforming host returns (lemmas \<open>sortCmp_sort_key\<close> and \<open>chainOf_valid\<close>).
  Where a date is invalid the comparator returns NaN and is inconsistent: the order a
  host returns is then implementation-defined and need not be the order of the
  insertion sort, so the model stands for the code on valid dates only. The theorems
  that depend on the order are stated for valid dates; the others hold for every
  sort that returns a permutation of its input.
\<close>

fun insertRev :: "('a \<Rightarrow> 'a \<Rightarrow> number) \<Rightarrow> 'a \<Rightarrow> 'a list \<Rightarrow> 'a list" where
  "insertRev cmp x [] = [x]"
| "insertRev cmp x (y # ys) =
     (if fgt (cmp y x) (Fin 0) then y # insertRev cmp x ys else x # y # ys)"

definition sortCmp :: "('a \<Rightarrow> 'a \<Rightarrow> number) \<Rightarrow> 'a list \<Rightarrow> 'a list" where
  "sortCmp cmp xs = rev (foldl (\<lambda>acc x. insertRev cmp x acc) [] xs)"

text \<open>
  \<open>new Date(d || 0).getTime()\<close> for a date string \<open>d\<close>. The parameter \<open>getTime\<close>
  stands for the host's \<open>new Date(s).getTime()\<close> on a non-empty string \<open>s\<close>: the time
  value in milliseconds, or NaN for a string that is not a date. The empty string is
  falsy, so it is replaced by \<open>0\<close>, and \<open>new Date(0).getTime()\<close> is \<open>0\<close>.
\<close>

definition dateTime :: "(string \<Rightarrow> number) \<Rightarrow> string \<Rightarrow> number" where
  "dateTime getTime d = (if d = [] then Fin 0 else getTime d)"

text \<open>The comparator \<open>(a, b) => new Date(a.date || 0).getTime() - new Date(b.date || 0).getTime()\<close>.\<close>

definition dateCmp :: "(string \<Rightarrow> number) \<Rightarrow> Transaction \<Rightarrow> Transaction \<Rightarrow> number" where
  "dateCmp getTime a b = fsub (dateTime getTime (date a)) (dateTime getTime (date b))"

text \<open>
  The \<open>accTxs.map(tx => ...)\<close> of the healer: the closure reads and writes the
  variable \<open>runningBalance\<close>, which is the first argument here.
\<close>

fun healMap :: "number \<Rightarrow> Transaction list \<Rightarrow> Transaction list" where
  "healMap runningBalance [] = []"
| "healMap runningBalance (tx # txs) =
     (let stats = calculateProfitStats runningBalance (Transaction.currentBalance tx)
                    (userDeposit tx) (withdrawal tx);
          updatedTx = tx\<lparr>previousBalance := runningBalance,
                         calculatedProfit := profitAmount stats,
                         Transaction.profitPercentage := ProfitStats.profitPercentage stats,
                         Transaction.type := ProfitStats.type stats\<rparr>
      in updatedTx # healMap (Transaction.currentBalance tx) txs)"

definition healTransactionChain ::
  "(string \<Rightarrow> number) \<Rightarrow> Transaction list \<Rightarrow> string \<Rightarrow> Account list
     \<Rightarrow> Transaction list \<times> Account list" where
  "healTransactionChain getTime allTransactions affectedAccountId allAccounts =
     (case find (\<lambda>a. Account.id a = affectedAccountId) allAccounts of
        None \<Rightarrow> (allTransactions, allAccounts)
      | Some account \<Rightarrow>
         (let otherTxs = filter (\<lambda>t. accountId t \<noteq> affectedAccountId) allTransactions;
              accTxs = sortCmp (dateCmp getTime)
                         (filter (\<lambda>t. accountId t = affectedAccountId) allTransactions);
              healedAccTxs = healMap (orElse (initialCapital account) (Fin 0)) accTxs;
              finalBalance = (if length healedAccTxs > 0
                              then Transaction.currentBalance (last healedAccTxs)
                              else initialCapital account);
              updatedAccounts = map (\<lambda>a. if Account.id a = affectedAccountId
                                          then a\<lparr>Account.currentBalance := finalBalance\<rparr>
                                          else a) allAccounts
          in (otherTxs @ healedAccTxs, updatedAccounts)))"

text \<open>
  The \<open>accTxs\<close> of the healer for an account and a transaction collection: the
  account's transactions as the healer's own filter and sort return them. This is the
  code's order, not a definition of date order: with an invalid date it need not be
  chronological.
\<close>

definition chainOf :: "(string \<Rightarrow> number) \<Rightarrow> string \<Rightarrow> Transaction list \<Rightarrow> Transaction list" where
  "chainOf getTime accId txs = sortCmp (dateCmp getTime) (filter (\<lambda>t. accountId t = accId) txs)"


text \<open>
  Valid dates. The dates of a transaction list are valid for \<open>getTime\<close> when each of
  them has a time value, that is, a whole number of milliseconds, which \<open>ms\<close> names;
  NaN, the time value of a string that is not a date, is excluded. The empty date
  counts as valid with time value \<open>0\<close>, as \<open>new Date(d || 0)\<close> has it.
\<close>

definition validDates :: "(string \<Rightarrow> number) \<Rightarrow> (string \<Rightarrow> int) \<Rightarrow> Transaction list \<Rightarrow> bool" where
  "validDates getTime ms txs =
     list_all (\<lambda>t. dateTime getTime (date t) = Fin (of_int (ms (date t)))) txs"

text \<open>
  The transactions of an account in date-sorted order, stated without the healer's
  sort: the account's transactions, ascending in the time value of their dates,
  transactions of the same time value in the order of the collection.
\<close>

definition dateSorted :: "(string \<Rightarrow> int) \<Rightarrow> string \<Rightarrow> Transaction list \<Rightarrow> Transaction list" where
  "dateSorted ms accId txs =
     sort_key (\<lambda>t. ms (date t)) (filter (\<lambda>t. accountId t = accId) txs)"

text \<open>The authoritative inputs of a transaction: the record with its four derived fields blanked.\<close>

definition inputsOf :: "Transaction \<Rightarrow> Transaction" where
  "inputsOf tx = tx\<lparr>previousBalance := NaN, calculatedProfit := NaN,
                     Transaction.profitPercentage := NaN, Transaction.type := []\<rparr>"


section \<open>The import parser (parseImportCSV)\<close>

text \<open>
  A document is a string of 8-bit characters, read as UTF-8 text. Case mapping and
  white space are the ASCII ones, so the model covers the documents whose letters and
  spaces are ASCII. The byte order mark U+FEFF is the three bytes \<open>EF BB BF\<close>.
\<close>

definition LF :: char where "LF = CHR 0x0A"
definition CR :: char where "CR = CHR 0x0D"
definition DQUOTE :: char where "DQUOTE = CHR 0x22"

definition toUpperChar :: "char \<Rightarrow> char" where
  "toUpperChar c = (if (97::nat) \<le> of_char c \<and> of_char c \<le> (122::nat)
     then (case c of Char b0 b1 b2 b3 b4 b5 b6 b7 \<Rightarrow> Char b0 b1 b2 b3 b4 False b6 b7) else c)"

definition toLowerChar :: "char \<Rightarrow> char" where
  "toLowerChar c = (if (65::nat) \<le> of_char c \<and> of_char c \<le> (90::nat)
     then (case c of Char b0 b1 b2 b3 b4 b5 b6 b7 \<Rightarrow> Char b0 b1 b2 b3 b4 True b6 b7) else c)"

definition toUpperCase :: "string \<Rightarrow> string" where
  "toUpperCase s = map toUpperChar s"

definition toLowerCase :: "string \<Rightarrow> string" where
  "toLowerCase s = map toLowerChar s"

definition isSpaceChar :: "char \<Rightarrow> bool" where
  "isSpaceChar c = (c \<in> set [CHR 0x09, CHR 0x0A, CHR 0x0B, CHR 0x0C, CHR 0x0D, CHR 0x20])"

definition trim :: "string \<Rightarrow> string" where
  "trim s = rev (dropWhile isSpaceChar (rev (dropWhile isSpaceChar s)))"

text \<open>\<open>s.includes(pat)\<close> and \<open>s.startsWith(pat)\<close>.\<close>

definition startsWith :: "string \<Rightarrow> string \<Rightarrow> bool" where
  "startsWith s pat = (take (length pat) s = pat)"

fun includesStr :: "string \<Rightarrow> string \<Rightarrow> bool" where
  "includesStr [] pat = (pat = [])"
| "includesStr (c # cs) pat = (startsWith (c # cs) pat \<or> includesStr cs pat)"

text \<open>The removal of a leading byte order mark, and \<open>.replace(/\r\n/g, '\n')\<close>.\<close>

definition stripBOM :: "string \<Rightarrow> string" where
  "stripBOM s = (if take 3 s = [CHR 0xEF, CHR 0xBB, CHR 0xBF] then drop 3 s else s)"

fun replaceCRLF :: "string \<Rightarrow> string" where
  "replaceCRLF (c1 # c2 # cs) =
     (if c1 = CR \<and> c2 = LF then LF # replaceCRLF cs else c1 # replaceCRLF (c2 # cs))"
| "replaceCRLF cs = cs"

text \<open>\<open>s.split(sep)\<close> for a one-character separator.\<close>

fun splitOn :: "char \<Rightarrow> string \<Rightarrow> string list" where
  "splitOn sep [] = [[]]"
| "splitOn sep (c # cs) =
     (if c = sep then [] # splitOn sep cs
      else (case splitOn sep cs of x # xs \<Rightarrow> (c # x) # xs | [] \<Rightarrow> [[c]]))"

text \<open>
  \<open>line.split(/,(?=(?:(?:[^"]*"){2})*[^"]*$)/)\<close>: the line is split at every comma
  that is followed by an even number of double quotes up to the end of the line.
\<close>

fun splitFields :: "string \<Rightarrow> string list" where
  "splitFields [] = [[]]"
| "splitFields (c # cs) =
     (if c = CHR '','' \<and> even (count_list cs DQUOTE) then [] # splitFields cs
      else (case splitFields cs of x # xs \<Rightarrow> (c # x) # xs | [] \<Rightarrow> [[c]]))"

text \<open>\<open>p.replace(/^"|"$/g, '')\<close>: one double quote is removed at the start and one at the end.\<close>

definition stripQuotes :: "string \<Rightarrow> string" where
  "stripQuotes s =
     (let s1 = (if s \<noteq> [] \<and> hd s = DQUOTE then tl s else s)
      in if s1 \<noteq> [] \<and> last s1 = DQUOTE then butlast s1 else s1)"

text \<open>\<open>s || d\<close> on strings: the empty string is the falsy one.\<close>

definition strOr :: "string \<Rightarrow> string \<Rightarrow> string" where
  "strOr s d = (if s = [] then d else s)"

datatype Section = NONE | ACCOUNTS | TRANSACTIONS

text \<open>
  The variables that the \<open>lines.forEach\<close> callback of the parser reads and writes, and
  the number of calls of \<open>generateId\<close> made so far.
\<close>

record ParseState =
  currentSection :: Section
  accounts :: "Account list"
  transactions :: "Transaction list"
  idCalls :: nat

text \<open>
  The host functions are parameters: \<open>toNumber\<close> is \<open>Number(s)\<close> on a string,
  \<open>generateId n\<close> is the result of the \<open>n\<close>-th call of \<open>generateId()\<close>, and \<open>today\<close> is
  \<open>new Date().toISOString().split('T')[0]\<close>. A field past the end of the row is
  \<open>undefined\<close>: \<open>Number(undefined)\<close> is NaN, and \<open>undefined || d\<close> is \<open>d\<close>.
\<close>

definition makeAccount ::
  "(string \<Rightarrow> number) \<Rightarrow> string \<Rightarrow> string \<Rightarrow> string list \<Rightarrow> Account" where
  "makeAccount toNumber freshId today cleanParts =
     \<lparr>Account.id = strOr (cleanParts ! 0) freshId,
      bankName = strOr (cleanParts ! 1) ''Unknown Bank'',
      currency = (if cleanParts ! 2 \<in> set [TRY, USD] then cleanParts ! 2 else TRY),
      investmentType = strOr (cleanParts ! 3) PARTICIPATION,
      startDate = strOr (cleanParts ! 4) today,
      maturityPeriod = orElse (toNumber (cleanParts ! 5)) (Fin 0),
      riskLevel = strOr (cleanParts ! 6) ''Low'',
      currentBalance = orElse (toNumber (cleanParts ! 7)) (Fin 0),
      initialCapital =
        orElse (orElse (if 8 < length cleanParts then toNumber (cleanParts ! 8) else NaN)
                       (toNumber (cleanParts ! 7)))
               (Fin 0)\<rparr>"

definition makeTransaction ::
  "(string \<Rightarrow> number) \<Rightarrow> string \<Rightarrow> string \<Rightarrow> string list \<Rightarrow> Transaction" where
  "makeTransaction toNumber freshId today cleanParts =
     \<lparr>Transaction.id = strOr (cleanParts ! 0) freshId,
      accountId = cleanParts ! 1,
      date = strOr (cleanParts ! 2) today,
      previousBalance = orElse (toNumber (cleanParts ! 3)) (Fin 0),
      currentBalance = orElse (toNumber (cleanParts ! 4)) (Fin 0),
      userDeposit = orElse (toNumber (cleanParts ! 5)) (Fin 0),
      withdrawal = orElse (toNumber (cleanParts ! 6)) (Fin 0),
      calculatedProfit = orElse (toNumber (cleanParts ! 7)) (Fin 0),
      profitPercentage = orElse (toNumber (cleanParts ! 8)) (Fin 0),
      type = (if 9 < length cleanParts then strOr (cleanParts ! 9) BANK_PROFIT else BANK_PROFIT)\<rparr>"

text \<open>The callback of \<open>lines.forEach\<close>. \<open>generateId()\<close> is called only when the id field is empty.\<close>

definition processLine ::
  "(string \<Rightarrow> number) \<Rightarrow> (nat \<Rightarrow> string) \<Rightarrow> string \<Rightarrow> ParseState \<Rightarrow> string \<Rightarrow> ParseState" where
  "processLine toNumber generateId today st line =
     (let upperLine = toUpperCase line in
      if includesStr upperLine ''---ACCOUNTS---'' then st\<lparr>currentSection := ACCOUNTS\<rparr>
      else if includesStr upperLine ''---TRANSACTIONS---'' then st\<lparr>currentSection := TRANSACTIONS\<rparr>
      else if startsWith (toLowerCase line) ''id,'' then st
      else
        (let parts = splitFields line;
             cleanParts = map (\<lambda>p. stripQuotes (trim p)) parts;
             calls = (if cleanParts ! 0 = [] then Suc (idCalls st) else idCalls st)
         in if currentSection st = ACCOUNTS \<and> length cleanParts \<ge> 8
            then st\<lparr>accounts := accounts st
                        @ [makeAccount toNumber (generateId (idCalls st)) today cleanParts],
                      idCalls := calls\<rparr>
            else if currentSection st = TRANSACTIONS \<and> length cleanParts \<ge> 9
            then st\<lparr>transactions := transactions st
                        @ [makeTransaction toNumber (generateId (idCalls st)) today cleanParts],
                      idCalls := calls\<rparr>
            else st))"

definition parseImportCSV ::
  "(string \<Rightarrow> number) \<Rightarrow> (nat \<Rightarrow> string) \<Rightarrow> string \<Rightarrow> string
     \<Rightarrow> Account list \<times> Transaction list" where
  "parseImportCSV toNumber generateId today content =
     (let normalizedContent = replaceCRLF (stripBOM content);
          lines = filter (\<lambda>l. length l > 0) (map trim (splitOn LF normalizedContent));
          final = foldl (processLine toNumber generateId today)
                    \<lparr>currentSection = NONE, accounts = [], transactions = [], idCalls = 0\<rparr> lines
      in (accounts final, transactions final))"


section \<open>The application state and its handlers\<close>

text \<open>
  The React state that the modelled handlers read and write. A handler is a function
  from the state (and its argument) to the next state; \<open>setX(prev => ...)\<close> is the
  update of field \<open>X\<close> from its current value.
\<close>

record AppState =
  accounts :: "Account list"
  transactions :: "Transaction list"
  editingTransaction :: "Transaction option"
  txToDelete :: "Transaction option"
  isTxModalOpen :: bool

text \<open>
  \<open>handleSave\<close> of the transaction form that belongs to \<open>handleAddTransaction\<close>: the
  record that the form hands to \<open>onSave\<close>, from the account, the three numbers and the
  date entered, and the id that \<open>crypto.randomUUID()\<close> returns.
\<close>

definition handleSave ::
  "Account \<Rightarrow> number \<Rightarrow> number \<Rightarrow> number \<Rightarrow> string \<Rightarrow> string \<Rightarrow> Transaction" where
  "handleSave account newBalance deposit withdrawn day freshId =
     (let stats = calculateProfitStats (Account.currentBalance account) newBalance deposit withdrawn
      in \<lparr>Transaction.id = freshId,
          accountId = Account.id account,
          date = day,
          previousBalance = Account.currentBalance account,
          currentBalance = newBalance,
          userDeposit = deposit,
          withdrawal = withdrawn,
          calculatedProfit = profitAmount stats,
          profitPercentage = ProfitStats.profitPercentage stats,
          type = ProfitStats.type stats\<rparr>)"

text \<open>\<open>handleAddTransaction\<close> of App.tsx.\<close>

definition handleAddTransaction :: "AppState \<Rightarrow> Transaction \<Rightarrow> AppState" where
  "handleAddTransaction st newTx =
     st\<lparr>transactions := transactions st @ [newTx],
        accounts := map (\<lambda>acc. if Account.id acc = accountId newTx
                               then acc\<lparr>Account.currentBalance := Transaction.currentBalance newTx\<rparr>
                               else acc) (accounts st),
        isTxModalOpen := False\<rparr>"

text \<open>\<open>handleSaveTransaction\<close>, \<open>confirmDeleteTransaction\<close> and \<open>handleImport\<close> of the healing App component.\<close>

definition handleSaveTransaction :: "(string \<Rightarrow> number) \<Rightarrow> AppState \<Rightarrow> Transaction \<Rightarrow> AppState" where
  "handleSaveTransaction getTime st tx =
     (let newTransactionsList =
            (case editingTransaction st of
               Some _ \<Rightarrow> map (\<lambda>t. if Transaction.id t = Transaction.id tx then tx else t) (transactions st)
             | None \<Rightarrow> transactions st @ [tx]);
          healed = healTransactionChain getTime newTransactionsList (accountId tx) (accounts st)
      in st\<lparr>transactions := fst healed, accounts := snd healed,
            isTxModalOpen := False, editingTransaction := None\<rparr>)"

definition confirmDeleteTransaction :: "(string \<Rightarrow> number) \<Rightarrow> AppState \<Rightarrow> AppState" where
  "confirmDeleteTransaction getTime st =
     (case txToDelete st of
        None \<Rightarrow> st
      | Some del \<Rightarrow>
         (let remainingTxs = filter (\<lambda>t. Transaction.id t \<noteq> Transaction.id del) (transactions st);
              healed = healTransactionChain getTime remainingTxs (accountId del) (accounts st)
          in st\<lparr>transactions := fst healed, accounts := snd healed, txToDelete := None\<rparr>))"

definition handleImport :: "AppState \<Rightarrow> Account list \<Rightarrow> Transaction list \<Rightarrow> AppState" where
  "handleImport st newAccounts newTransactions =
     (if length newAccounts = 0 then st
      else st\<lparr>accounts :=
                (let existingIds = set (map Account.id (accounts st));
                     uniqueNew = filter (\<lambda>a. Account.id a \<noteq> [] \<and> Account.id a \<notin> existingIds) newAccounts
                 in accounts st @ uniqueNew),
              transactions :=
                (let existingIds = set (map Transaction.id (transactions st));
                     uniqueNew = filter (\<lambda>t. Transaction.id t \<noteq> [] \<and> Transaction.id t \<notin> existingIds) newTransactions
                 in transactions st @ uniqueNew)\<rparr>)"


section \<open>Sample data\<close>

text \<open>
  The concrete inputs on which the theorems below are instantiated. \<open>exampleTime\<close> is
  the table of \<open>new Date(s).getTime()\<close> for the two dates that occur (UTC midnight, in
  milliseconds); every other string counts as an invalid date. \<open>exampleMs\<close> is the same
  table in whole milliseconds.
\<close>

definition exampleTime :: "string \<Rightarrow> number" where
  "exampleTime s = (if s = ''2024-01-01'' then Fin 1704067200000
                    else if s = ''2024-02-01'' then Fin 1706745600000
                    else NaN)"

definition exampleMs :: "string \<Rightarrow> int" where
  "exampleMs s = (if s = ''2024-01-01'' then 1704067200000
                  else if s = ''2024-02-01'' then 1706745600000
                  else 0)"

definition accountA :: Account where
  "accountA = \<lparr>Account.id = ''acc-1'', bankName = ''Kuveyt Turk'', currency = TRY,
     investmentType = PARTICIPATION, startDate = ''2024-01-01'', maturityPeriod = Fin 12,
     riskLevel = ''Low'', currentBalance = Fin 800, initialCapital = Fin 800\<rparr>"

definition accountB :: Account where
  "accountB = \<lparr>Account.id = ''acc-2'', bankName = ''Albaraka'', currency = USD,
     investmentType = SUKUK, startDate = ''2024-02-15'', maturityPeriod = Fin 6,
     riskLevel = ''Medium'', currentBalance = Fin 12500, initialCapital = Fin 10000\<rparr>"

definition txFeb :: Transaction where
  "txFeb = \<lparr>Transaction.id = ''tx-1'', accountId = ''acc-1'', date = ''2024-02-01'',
     previousBalance = Fin 0, currentBalance = Fin 1350, userDeposit = Fin 100, withdrawal = Fin 0,
     calculatedProfit = Fin 0, profitPercentage = Fin 0, type = BANK_PROFIT\<rparr>"

definition txJan :: Transaction where
  "txJan = \<lparr>Transaction.id = ''tx-2'', accountId = ''acc-1'', date = ''2024-01-01'',
     previousBalance = Fin 0, currentBalance = Fin 1000, userDeposit = Fin 0, withdrawal = Fin 0,
     calculatedProfit = Fin 0, profitPercentage = Fin 0, type = BANK_PROFIT\<rparr>"

definition txOther :: Transaction where
  "txOther = \<lparr>Transaction.id = ''tx-3'', accountId = ''acc-2'', date = ''2024-02-01'',
     previousBalance = Fin 10000, currentBalance = Fin 12500, userDeposit = Fin 0, withdrawal = Fin 0,
     calculatedProfit = Fin 2500, profitPercentage = Fin 25, type = BANK_PROFIT\<rparr>"


text \<open>Host functions for the parser: a table for \<open>Number\<close>, numbered ids, and a fixed day.\<close>

definition exampleNumber :: "string \<Rightarrow> number" where
  "exampleNumber s = (if s = ''12'' then Fin 12 else if s = ''100'' then Fin 100 else NaN)"

definition exampleId :: "nat \<Rightarrow> string" where
  "exampleId n = ''generated-'' @ replicate n (CHR ''x'')"

text \<open>
  An accounts section with three data rows: one with a currency and an investment type
  that are not members of the enums, one with an empty investment type, and one with
  seven fields.
\<close>

definition exampleRow1 :: string where
  "exampleRow1 = ''a9,Bank,EUR,Crypto Fund,2024-01-01,12,Low,100,100''"

definition exampleRow2 :: string where
  "exampleRow2 = ''a8,Bank,USD,,2024-01-01,12,Low,100,100''"

definition exampleRow3 :: string where
  "exampleRow3 = ''a7,Bank,USD,Gold Account,2024-01-01,12,Low''"

definition exampleDocument :: string where
  "exampleDocument =
     ''---ACCOUNTS---'' @ [LF] @ exampleRow1 @ [LF] @ exampleRow2 @ [LF] @ exampleRow3 @ [LF]"

text \<open>The state of the App component before a transaction is added, and records to import.\<close>

definition stateBefore :: AppState where
  "stateBefore = \<lparr>accounts = [accountA\<lparr>Account.currentBalance := Fin 1350\<rparr>, accountB],
     transactions = [txFeb, txOther], editingTransaction = None, txToDelete = None,
     isTxModalOpen = True\<rparr>"

text \<open>The entry of a balance of 1000 dated 2024-01-01 into the form opened on the first account.\<close>

definition enteredTx :: Transaction where
  "enteredTx = handleSave (accountA\<lparr>Account.currentBalance := Fin 1350\<rparr>)
                 (Fin 1000) (Fin 0) (Fin 0) ''2024-01-01'' ''tx-2''"

definition accountA2 :: Account where
  "accountA2 = accountA\<lparr>bankName := ''Another Bank'', initialCapital := Fin 5\<rparr>"

definition accountNoId :: Account where
  "accountNoId = accountB\<lparr>Account.id := []\<rparr>"

definition accountC :: Account where
  "accountC = accountB\<lparr>Account.id := ''acc-3''\<rparr>"


section \<open>Rounding: the facts the proofs need\<close>

lemma pow2_less_cancel: "(2::rat) powi a < 2 powi b \<Longrightarrow> a < b"
  using power_int_increasing[of b a "2::rat"] by (cases "a < b") auto

lemma ilog2_lower:
  assumes "0 < q"
  shows "2 powi (ilog2 q) \<le> q"
proof -
  obtain a b where ab: "quotient_of q = (a, b)" by (cases "quotient_of q")
  have b: "0 < b" using ab by (rule quotient_of_denom_pos)
  have q: "q = of_int a / of_int b" using ab by (rule quotient_of_div)
  have a: "0 < a" using assms b q by (simp add: zero_less_divide_iff)
  define la where "la = floorlog 2 (nat a)"
  define lb where "lb = floorlog 2 (nat b)"
  have la: "2 ^ (la - 1) \<le> nat a" and lb: "nat b < 2 ^ lb"
    using floorlog_bounds[of "nat a" 2] floorlog_bounds[of "nat b" 2] a b
    by (simp_all add: la_def lb_def)
  have la0: "0 < la" using a by (simp add: la_def floorlog_def)
  have A: "(2::rat) ^ (la - 1) \<le> of_int a"
  proof -
    have "(of_nat (2 ^ (la - 1)) :: rat) \<le> of_nat (nat a)" using la by (simp only: of_nat_le_iff)
    then show ?thesis using a by simp
  qed
  have B: "of_int b < (2::rat) ^ lb"
  proof -
    have "(of_nat (nat b) :: rat) < of_nat (2 ^ lb)" using lb by (simp only: of_nat_less_iff)
    then show ?thesis using b by simp
  qed
  have "2 powi (int la - int lb - 1) \<le> q"
  proof -
    have "(2::rat) powi (int la - int lb - 1) = 2 ^ (la - 1) / 2 ^ lb"
      using la0 by (simp add: power_int_diff of_nat_diff Suc_le_eq flip: power_int_of_nat)
    also have "\<dots> \<le> of_int a / 2 ^ lb" using A by (simp add: divide_right_mono)
    also have "\<dots> \<le> of_int a / of_int b" using B a b by (simp add: frac_le)
    finally show ?thesis by (simp add: q)
  qed
  then show ?thesis
    by (simp add: ilog2_def ab Let_def la_def lb_def)
qed

lemma ilog2_upper:
  assumes "0 < q"
  shows "q < 2 powi (ilog2 q + 1)"
proof -
  obtain a b where ab: "quotient_of q = (a, b)" by (cases "quotient_of q")
  have b: "0 < b" using ab by (rule quotient_of_denom_pos)
  have q: "q = of_int a / of_int b" using ab by (rule quotient_of_div)
  have a: "0 < a" using assms b q by (simp add: zero_less_divide_iff)
  define la where "la = floorlog 2 (nat a)"
  define lb where "lb = floorlog 2 (nat b)"
  have la: "nat a < 2 ^ la" and lb: "2 ^ (lb - 1) \<le> nat b"
    using floorlog_bounds[of "nat a" 2] floorlog_bounds[of "nat b" 2] a b
    by (simp_all add: la_def lb_def)
  have lb0: "0 < lb" using b by (simp add: lb_def floorlog_def)
  have A: "of_int a < (2::rat) ^ la"
  proof -
    have "(of_nat (nat a) :: rat) < of_nat (2 ^ la)" using la by (simp only: of_nat_less_iff)
    then show ?thesis using a by simp
  qed
  have B: "(2::rat) ^ (lb - 1) \<le> of_int b"
  proof -
    have "(of_nat (2 ^ (lb - 1)) :: rat) \<le> of_nat (nat b)" using lb by (simp only: of_nat_le_iff)
    then show ?thesis using b by simp
  qed
  have "q < 2 powi (int la - int lb + 1)"
  proof -
    have "q = of_int a / of_int b" by (rule q)
    also have "\<dots> < 2 ^ la / of_int b" using A b by (simp add: divide_strict_right_mono)
    also have "\<dots> \<le> 2 ^ la / 2 ^ (lb - 1)" using B by (simp add: frac_le)
    also have "\<dots> = (2::rat) powi (int la - int lb + 1)"
      using lb0 by (simp add: power_int_diff power_int_add of_nat_diff Suc_le_eq flip: power_int_of_nat)
    finally show ?thesis .
  qed
  then show ?thesis
    by (auto simp add: ilog2_def ab Let_def la_def lb_def not_le)
qed

lemma ilog2_eqI:
  assumes "2 powi k \<le> q" "q < 2 powi (k + 1)"
  shows "ilog2 q = k"
proof -
  have q: "0 < q" using assms(1) by (rule less_le_trans[rotated]) simp
  have "2 powi (ilog2 q) < (2::rat) powi (k + 1)"
    using ilog2_lower[OF q] assms(2) by simp
  then have 1: "ilog2 q < k + 1" by (rule pow2_less_cancel)
  have "(2::rat) powi k < 2 powi (ilog2 q + 1)"
    using ilog2_upper[OF q] assms(1) by simp
  then have 2: "k < ilog2 q + 1" by (rule pow2_less_cancel)
  from 1 2 show ?thesis by simp
qed

lemma roundHalfEven_of_int [simp]: "roundHalfEven (of_int m) = m"
  by (simp add: roundHalfEven_def)

lemma roundHalfEven_nonneg: "0 \<le> x \<Longrightarrow> 0 \<le> roundHalfEven x"
  by (auto simp add: roundHalfEven_def Let_def)

lemma roundHalfEven_ge_floor: "\<lfloor>x\<rfloor> \<le> roundHalfEven x"
  by (simp add: roundHalfEven_def Let_def)

lemma roundMagnitude_nonneg: "0 \<le> q \<Longrightarrow> 0 \<le> roundMagnitude q"
  by (simp add: roundMagnitude_def Let_def roundHalfEven_nonneg)

lemma roundMagnitude_eval:
  assumes "2 powi k \<le> q" "q < 2 powi (k + 1)"
  shows "roundMagnitude q =
    of_int (roundHalfEven (q / 2 powi (max k (- 1022) - 52))) * 2 powi (max k (- 1022) - 52)"
  by (simp add: roundMagnitude_def Let_def ilog2_eqI[OF assms])

lemma roundMagnitude_exact:
  assumes q: "q = of_int m * 2 powi e" and m: "0 < m" "m < 2 ^ 53" and e: "- 1074 \<le> e"
  shows "roundMagnitude q = q"
proof -
  have q0: "0 < q" using m by (simp add: q)
  define k where "k = ilog2 q"
  have up: "2 powi k \<le> q"
    using ilog2_lower[OF q0] by (simp add: k_def)
  have "2 powi k < (2::rat) powi (53 + e)"
  proof -
    have "of_int m < (2::rat) ^ 53"
      using m(2) by (metis of_int_less_iff of_int_numeral of_int_power)
    then have "q < 2 ^ 53 * 2 powi e" by (simp add: q)
    also have "\<dots> = 2 powi (53 + e)" by (simp add: power_int_add)
    finally show ?thesis using up by simp
  qed
  then have ke: "k < 53 + e" by (rule pow2_less_cancel)
  define d where "d = max k (- 1022) - 52"
  have de: "d \<le> e" using ke e by (simp add: d_def)
  have "q / 2 powi d = of_int m * 2 powi (e - d)"
    by (simp add: q power_int_diff)
  also have "\<dots> = of_int (m * 2 ^ nat (e - d))"
    using de by (simp add: power_int_def)
  finally have "roundHalfEven (q / 2 powi d) = m * 2 ^ nat (e - d)"
    by (simp only: roundHalfEven_of_int)
  then have "roundMagnitude q = of_int (m * 2 ^ nat (e - d)) * 2 powi d"
    by (simp add: roundMagnitude_def Let_def k_def d_def)
  also have "\<dots> = of_int m * (2 powi (e - d) * 2 powi d)"
    using de by (simp add: power_int_def)
  also have "\<dots> = q" by (simp add: q flip: power_int_add)
  finally show ?thesis .
qed

lemma fl_zero [simp]: "fl 0 = Fin 0"
  by (simp add: fl_def)

lemma fl_exact:
  assumes q: "q = of_int m * 2 powi e" and m: "\<bar>m\<bar> < 2 ^ 53" and e: "- 1074 \<le> e"
    and nover: "\<bar>q\<bar> < 2 ^ 1024"
  shows "fl q = Fin q"
proof (cases "m = 0")
  case True
  then show ?thesis by (simp add: q)
next
  case False
  have aq: "\<bar>q\<bar> = of_int \<bar>m\<bar> * 2 powi e" by (simp add: q abs_mult)
  have r: "roundMagnitude \<bar>q\<bar> = \<bar>q\<bar>"
    using aq by (rule roundMagnitude_exact) (use False m e in simp_all)
  have q0: "q \<noteq> 0" using False by (simp add: q)
  show ?thesis unfolding fl_def Let_def r using nover q0 by (simp add: abs_if)
qed

lemma fl_of_int:
  assumes "\<bar>m\<bar> < 2 ^ 53"
  shows "fl (of_int m) = Fin (of_int m)"
proof (rule fl_exact[where m = m and e = 0])
  have "\<bar>rat_of_int m\<bar> = of_int \<bar>m\<bar>" by simp
  also have "\<dots> < of_int (2 ^ 53)" using assms by (simp only: of_int_less_iff)
  also have "\<dots> < 2 ^ 1024" by simp
  finally show "\<bar>rat_of_int m\<bar> < 2 ^ 1024" .
qed (use assms in simp_all)

lemma fl_numeral [simp]:
  "(numeral w :: int) < 9007199254740992 \<Longrightarrow> fl (numeral w) = Fin (numeral w)"
  "(numeral w :: int) < 9007199254740992 \<Longrightarrow> fl (- numeral w) = Fin (- numeral w)"
  using fl_of_int[of "numeral w"] fl_of_int[of "- numeral w"] by simp_all

lemma fl_one [simp]: "fl 1 = Fin 1" "fl (- 1) = Fin (- 1)"
  using fl_of_int[of 1] fl_of_int[of "- 1"] by simp_all

lemma fl_sign:
  "0 \<le> q \<Longrightarrow> \<not> fgt (Fin 0) (fl q)"
  "q \<le> 0 \<Longrightarrow> \<not> fgt (fl q) (Fin 0)"
  using roundMagnitude_nonneg[of "\<bar>q\<bar>"] by (auto simp add: fl_def Let_def)

lemma fl_overflow:
  assumes "2 ^ 1024 \<le> q"
  shows "fl q = PInf"
proof -
  have q0: "0 < q" using assms by (rule less_le_trans[rotated]) simp
  define k where "k = ilog2 q"
  have "(2::rat) powi 1024 < 2 powi (k + 1)"
    using ilog2_upper[OF q0] assms by (simp add: k_def)
  then have k: "1024 \<le> k" using pow2_less_cancel[of 1024 "k + 1"] by simp
  define e where "e = k - 52"
  have "(2::rat) ^ 52 = 2 powi (k - e)" by (simp add: e_def)
  also have "\<dots> = 2 powi k / 2 powi e" by (simp add: power_int_diff)
  also have "\<dots> \<le> q / 2 powi e"
    using ilog2_lower[OF q0] by (simp add: k_def divide_right_mono)
  finally have "(of_int (2 ^ 52) :: rat) \<le> q / 2 powi e" by simp
  then have "2 ^ 52 \<le> \<lfloor>q / 2 powi e\<rfloor>" by (simp only: le_floor_iff)
  then have "2 ^ 52 \<le> roundHalfEven (q / 2 powi e)"
    using roundHalfEven_ge_floor[of "q / 2 powi e"] by linarith
  then have "(of_int (2 ^ 52) :: rat) \<le> of_int (roundHalfEven (q / 2 powi e))"
    by (simp only: of_int_le_iff)
  then have A: "(2::rat) ^ 52 * 2 powi e \<le> of_int (roundHalfEven (q / 2 powi e)) * 2 powi e"
    by (simp add: mult_right_mono)
  have "(2::rat) ^ 1024 = 2 powi 1024" by simp
  also have "\<dots> \<le> 2 powi k"
    using k by (intro power_int_increasing) simp_all
  also have "\<dots> = (2::rat) ^ 52 * 2 powi e"
    by (simp add: e_def power_int_diff)
  also note A
  also have "of_int (roundHalfEven (q / 2 powi e)) * 2 powi e = roundMagnitude q"
    using k by (simp add: roundMagnitude_def Let_def k_def e_def)
  finally have "2 ^ 1024 \<le> roundMagnitude q" .
  then show ?thesis using q0 by (simp add: fl_def Let_def)
qed

lemma fl_eval_pos:
  assumes "2 powi k \<le> q" "q < 2 powi (k + 1)"
  shows "fl q = (let r = of_int (roundHalfEven (q / 2 powi (max k (- 1022) - 52)))
                         * 2 powi (max k (- 1022) - 52)
                 in if 2 ^ 1024 \<le> r then PInf else Fin r)"
proof -
  have q: "0 < q" using assms(1) by (rule less_le_trans[rotated]) simp
  then show ?thesis
    by (simp add: fl_def roundMagnitude_eval[OF assms] Let_def)
qed

lemma floor_rat_numeral_div:
  "\<lfloor>numeral a / numeral b :: rat\<rfloor> = numeral a div numeral b"
  by (metis floor_divide_of_int_eq of_int_numeral)

lemma roundHalfEven_numeral_div:
  "roundHalfEven (numeral a / numeral b) =
     (let f = numeral a div numeral b; d = numeral a / numeral b - rat_of_int f
      in if d < 1 / 2 then f else if 1 / 2 < d then f + 1 else if even f then f else f + 1)"
  by (simp add: roundHalfEven_def floor_rat_numeral_div)


lemma pow2_le_cancel: "(2::rat) powi a \<le> 2 powi b \<Longrightarrow> a \<le> b"
  using power_int_strict_increasing[of b a "2::rat"] by (cases "a \<le> b") auto

lemma roundHalfEven_le:
  assumes "x \<le> of_int N"
  shows "roundHalfEven x \<le> N"
proof (cases "\<lfloor>x\<rfloor> < N")
  case True
  then show ?thesis by (simp add: roundHalfEven_def Let_def)
next
  case False
  have "\<lfloor>x\<rfloor> \<le> N" using assms by (simp add: floor_le_iff) 
  with False have f: "\<lfloor>x\<rfloor> = N" by simp
  have "of_int \<lfloor>x\<rfloor> \<le> x" by simp
  with assms f have "x = of_int N" by simp
  then show ?thesis by simp
qed

lemma roundMagnitude_le:
  assumes q: "0 < q" "q \<le> 2 powi k" and k: "- 1074 \<le> k"
  shows "roundMagnitude q \<le> 2 powi k"
proof -
  define e where "e = max (ilog2 q) (- 1022) - 52"
  have "2 powi (ilog2 q) \<le> (2::rat) powi k"
    using ilog2_lower[OF q(1)] q(2) by simp
  then have "ilog2 q \<le> k" by (rule pow2_le_cancel)
  then have ek: "e \<le> k" using k by (simp add: e_def)
  have "q / 2 powi e \<le> 2 powi k / 2 powi e"
    using q(2) by (simp add: divide_right_mono)
  also have "\<dots> = 2 powi (k - e)" by (simp add: power_int_diff)
  also have "\<dots> = of_int (2 ^ nat (k - e))" using ek by (simp add: power_int_def)
  finally have "roundHalfEven (q / 2 powi e) \<le> 2 ^ nat (k - e)"
    by (rule roundHalfEven_le)
  then have "(of_int (roundHalfEven (q / 2 powi e)) :: rat) \<le> of_int (2 ^ nat (k - e))"
    by (simp only: of_int_le_iff)
  then have "of_int (roundHalfEven (q / 2 powi e)) * 2 powi e \<le> of_int (2 ^ nat (k - e)) * (2::rat) powi e"
    by (simp add: mult_right_mono)
  also have "of_int (2 ^ nat (k - e)) * (2::rat) powi e = 2 powi (k - e) * 2 powi e"
    using ek by (simp add: power_int_def)
  also have "\<dots> = 2 powi k" by (simp flip: power_int_add)
  finally show ?thesis by (simp add: roundMagnitude_def Let_def e_def)
qed

lemma fl_bounded:
  assumes q: "\<bar>q\<bar> \<le> 2 powi k" and k: "- 1074 \<le> k" "k < 1024"
  shows "\<exists>r. fl q = Fin r \<and> \<bar>r\<bar> \<le> 2 powi k"
proof (cases "q = 0")
  case True
  then show ?thesis by simp
next
  case False
  then have a: "0 < \<bar>q\<bar>" by simp
  have r: "roundMagnitude \<bar>q\<bar> \<le> 2 powi k"
    using a q k(1) by (rule roundMagnitude_le)
  have "(2::rat) powi k < 2 powi 1024"
    using k(2) by (intro power_int_strict_increasing) simp_all
  then have n: "\<not> 2 ^ 1024 \<le> roundMagnitude \<bar>q\<bar>" using r by simp
  have p: "0 \<le> roundMagnitude \<bar>q\<bar>" by (rule roundMagnitude_nonneg) simp
  show ?thesis using False n r p
    unfolding fl_def Let_def by (auto simp add: abs_if)
qed


lemma fsub_bounded:
  assumes "\<bar>a\<bar> \<le> 2 powi k" "\<bar>b\<bar> \<le> 2 powi k" "- 1075 \<le> k" "k < 1023"
  shows "\<exists>r. fsub (Fin a) (Fin b) = Fin r \<and> \<bar>r\<bar> \<le> 2 powi (k + 1)"
proof -
  have "\<bar>a - b\<bar> \<le> \<bar>a\<bar> + \<bar>b\<bar>" by simp
  also have "\<dots> \<le> 2 powi k + 2 powi k" using assms(1,2) by simp
  also have "\<dots> = (2::rat) powi (k + 1)" by (simp add: power_int_add)
  finally have "\<bar>a - b\<bar> \<le> 2 powi (k + 1)" .
  then show ?thesis using fl_bounded[of "a - b" "k + 1"] assms(3,4) by simp
qed


lemma roundMagnitude_ge:
  assumes q0: "0 < q" and n: "- 1022 \<le> ilog2 q"
  shows "2 powi (ilog2 q) \<le> roundMagnitude q"
proof -
  define k where "k = ilog2 q"
  define e where "e = k - 52"
  have "(2::rat) ^ 52 = 2 powi (k - e)" by (simp add: e_def)
  also have "\<dots> = 2 powi k / 2 powi e" by (simp add: power_int_diff)
  also have "\<dots> \<le> q / 2 powi e"
    using ilog2_lower[OF q0] by (simp add: k_def divide_right_mono)
  finally have "(of_int (2 ^ 52) :: rat) \<le> q / 2 powi e" by simp
  then have "2 ^ 52 \<le> \<lfloor>q / 2 powi e\<rfloor>" by (simp only: le_floor_iff)
  then have "2 ^ 52 \<le> roundHalfEven (q / 2 powi e)"
    using roundHalfEven_ge_floor[of "q / 2 powi e"] by linarith
  then have "(of_int (2 ^ 52) :: rat) \<le> of_int (roundHalfEven (q / 2 powi e))"
    by (simp only: of_int_le_iff)
  then have A: "(2::rat) ^ 52 * 2 powi e \<le> of_int (roundHalfEven (q / 2 powi e)) * 2 powi e"
    by (simp add: mult_right_mono)
  have "(2::rat) powi k = (2::rat) ^ 52 * 2 powi e"
    by (simp add: e_def power_int_diff)
  also note A
  also have "of_int (roundHalfEven (q / 2 powi e)) * 2 powi e = roundMagnitude q"
    using n by (simp add: roundMagnitude_def Let_def k_def e_def)
  finally show ?thesis by (simp add: k_def)
qed

lemma fl_pos:
  assumes "1 \<le> q"
  shows "fgt (fl q) (Fin 0)"
proof -
  have q0: "0 < q" using assms by simp
  have "(2::rat) powi 0 < 2 powi (ilog2 q + 1)"
    using ilog2_upper[OF q0] assms by simp
  then have k: "0 \<le> ilog2 q" using pow2_less_cancel[of 0 "ilog2 q + 1"] by simp
  have "0 < (2::rat) powi (ilog2 q)" by simp
  also have "\<dots> \<le> roundMagnitude q" using q0 k by (intro roundMagnitude_ge) simp_all
  finally show ?thesis using q0 by (simp add: fl_def Let_def)
qed

lemma fgt_fsub_of_int:
  "fgt (fsub (Fin (of_int a)) (Fin (of_int b))) (Fin 0) \<longleftrightarrow> b < a"
proof (cases "b < a")
  case True
  then have "1 \<le> a - b" by simp
  then have "(1::rat) \<le> of_int (a - b)" by (simp only: of_int_1_le_iff)
  then show ?thesis using fl_pos[of "of_int a - of_int b"] True by simp
next
  case False
  then have "rat_of_int a - of_int b \<le> 0" by simp
  then show ?thesis using fl_sign(2)[of "of_int a - of_int b"] False by simp
qed


text \<open>
  Checks of the rounding against known doubles: \<open>0.1\<close>, \<open>0.2\<close> and \<open>0.3\<close> are the
  doubles \<open>3602879701896397 / 2 ^ 55\<close>, \<open>3602879701896397 / 2 ^ 54\<close> and
  \<open>5404319552844595 / 2 ^ 54\<close>, and \<open>0.1 + 0.2\<close> is \<open>0.30000000000000004\<close>, the double
  after \<open>0.3\<close> (a tie, rounded to the even significand).
\<close>

lemma fl_tenth: "fl (1 / 10) = Fin (3602879701896397 / 36028797018963968)"
  by (subst fl_eval_pos[where k = "- 4"]) (simp_all add: roundHalfEven_numeral_div Let_def)

lemma fl_fifth: "fl (1 / 5) = Fin (3602879701896397 / 18014398509481984)"
  by (subst fl_eval_pos[where k = "- 3"]) (simp_all add: roundHalfEven_numeral_div Let_def)

lemma fl_three_tenths: "fl (3 / 10) = Fin (5404319552844595 / 18014398509481984)"
  by (subst fl_eval_pos[where k = "- 2"]) (simp_all add: roundHalfEven_numeral_div Let_def)

lemma fadd_tenth_fifth:
  "fadd (fl (1 / 10)) (fl (1 / 5)) = Fin (5404319552844596 / 18014398509481984)"
  unfolding fl_tenth fl_fifth fadd.simps
  by (subst fl_eval_pos[where k = "- 2"]) (simp_all add: roundHalfEven_numeral_div Let_def)


section \<open>The classifier: type priority\<close>

lemma type_tags_distinct:
  "WITHDRAWAL \<noteq> MIXED" "WITHDRAWAL \<noteq> USER_DEPOSIT" "WITHDRAWAL \<noteq> BANK_PROFIT"
  "MIXED \<noteq> USER_DEPOSIT" "MIXED \<noteq> BANK_PROFIT" "USER_DEPOSIT \<noteq> BANK_PROFIT"
  by (simp_all add: WITHDRAWAL_def MIXED_def USER_DEPOSIT_def BANK_PROFIT_def)

text \<open>
  Claim C4. The type tag of the classifier is decided by first match: a withdrawal
  \<open>> 0\<close> gives WITHDRAWAL whatever the deposit and the profit are; otherwise a deposit
  \<open>> 0\<close> with a profit amount \<open>> 0\<close> gives MIXED; otherwise a deposit \<open>> 0\<close> gives
  USER_DEPOSIT; otherwise BANK_PROFIT. The four examples of the specification:
  \<open>classify(100, 100, 5, 10)\<close> is WITHDRAWAL, \<open>classify(100, 120, 10, 0)\<close> is MIXED with
  profit amount 10, \<open>classify(100, 105, 10, 0)\<close> is USER_DEPOSIT with profit amount -5,
  \<open>classify(100, 110, 0, 0)\<close> is BANK_PROFIT with profit amount 10.
\<close>

theorem classifier_type_priority:
  "ProfitStats.type (calculateProfitStats p c d w) =
     (if fgt w (Fin 0) then WITHDRAWAL
      else if fgt d (Fin 0) \<and> fgt (profitAmount (calculateProfitStats p c d w)) (Fin 0) then MIXED
      else if fgt d (Fin 0) then USER_DEPOSIT
      else BANK_PROFIT)
   \<and> ProfitStats.type (calculateProfitStats (Fin 100) (Fin 100) (Fin 5) (Fin 10)) = WITHDRAWAL
   \<and> ProfitStats.type (calculateProfitStats (Fin 100) (Fin 120) (Fin 10) (Fin 0)) = MIXED
   \<and> profitAmount (calculateProfitStats (Fin 100) (Fin 120) (Fin 10) (Fin 0)) = Fin 10
   \<and> ProfitStats.type (calculateProfitStats (Fin 100) (Fin 105) (Fin 10) (Fin 0)) = USER_DEPOSIT
   \<and> profitAmount (calculateProfitStats (Fin 100) (Fin 105) (Fin 10) (Fin 0)) = Fin (- 5)
   \<and> ProfitStats.type (calculateProfitStats (Fin 100) (Fin 110) (Fin 0) (Fin 0)) = BANK_PROFIT
   \<and> profitAmount (calculateProfitStats (Fin 100) (Fin 110) (Fin 0) (Fin 0)) = Fin 10"
  by (simp add: calculateProfitStats_def Let_def)

section \<open>The classifier: the percentage\<close>

lemma moderateD:
  assumes "moderate x"
  obtains q where "x = Fin q" "\<bar>q\<bar> \<le> 2 powi 400" "q = 0 \<or> 2 powi (- 400) \<le> \<bar>q\<bar>"
  using assms by (cases x) (auto simp add: moderate_def)

lemma profitBase_pos: "fgt (profitBase p d) (Fin 0)"
  by (simp add: profitBase_def)

lemma profitBase_moderate:
  assumes "moderate p" "moderate d"
  obtains b where "profitBase p d = Fin b" "2 powi (- 400) \<le> b"
proof -
  from assms(1) obtain pq where p: "p = Fin pq" "pq = 0 \<or> 2 powi (- 400) \<le> \<bar>pq\<bar>"
    by (rule moderateD)
  from assms(2) obtain dq where d: "d = Fin dq" "dq = 0 \<or> 2 powi (- 400) \<le> \<bar>dq\<bar>"
    by (rule moderateD)
  have one: "(2::rat) powi (- 400) \<le> 1"
    by (simp add: power_int_minus inverse_le_1_iff)
  show ?thesis
  proof (cases "0 < pq")
    case True
    then show ?thesis using p that[of pq] by (auto simp add: profitBase_def)
  next
    case False
    note np = this
    show ?thesis
    proof (cases "0 < dq")
      case True
      then show ?thesis using np p d that[of dq] by (auto simp add: profitBase_def)
    next
      case False
      then show ?thesis using np p d one that[of 1] by (auto simp add: profitBase_def)
    qed
  qed
qed

lemma profitPercentage_unfold:
  "ProfitStats.profitPercentage (calculateProfitStats p c d w)
     = fmul (fdiv (profitAmount (calculateProfitStats p c d w)) (profitBase p d)) (Fin 100)"
  "profitAmount (calculateProfitStats p c d w) = fsub (fsub c p) (fsub d w)"
  by (simp_all add: calculateProfitStats_def profitBase_def Let_def)

lemma profitPercentage_finite:
  assumes "moderate p" "moderate c" "moderate d" "moderate w"
  shows "isFinite (ProfitStats.profitPercentage (calculateProfitStats p c d w))"
proof -
  from assms(1) obtain pq where p: "p = Fin pq" "\<bar>pq\<bar> \<le> 2 powi 400" by (rule moderateD)
  from assms(2) obtain cq where c: "c = Fin cq" "\<bar>cq\<bar> \<le> 2 powi 400" by (rule moderateD)
  from assms(3) obtain dq where d: "d = Fin dq" "\<bar>dq\<bar> \<le> 2 powi 400" by (rule moderateD)
  from assms(4) obtain wq where w: "w = Fin wq" "\<bar>wq\<bar> \<le> 2 powi 400" by (rule moderateD)
  obtain r1 where r1: "fsub c p = Fin r1" "\<bar>r1\<bar> \<le> 2 powi 401"
    using fsub_bounded[OF c(2) p(2)] by (auto simp add: c p)
  obtain r2 where r2: "fsub d w = Fin r2" "\<bar>r2\<bar> \<le> 2 powi 401"
    using fsub_bounded[OF d(2) w(2)] by (auto simp add: d w)
  obtain r3 where r3: "fl (r1 - r2) = Fin r3" "\<bar>r3\<bar> \<le> 2 powi 402"
    using fsub_bounded[OF r1(2) r2(2)] by auto
  obtain b where b: "profitBase p d = Fin b" "2 powi (- 400) \<le> b"
    using assms(1,3) by (rule profitBase_moderate)
  have b0: "0 < b" using b(2) by (rule less_le_trans[rotated]) simp
  have "\<bar>r3 / b\<bar> = \<bar>r3\<bar> / b" using b0 by simp
  also have "\<dots> \<le> 2 powi 402 / b" using r3(2) b0 by (simp add: divide_right_mono)
  also have "\<dots> \<le> 2 powi 402 / 2 powi (- 400)" using b(2) b0 by (intro divide_left_mono) simp_all
  also have "\<dots> = (2::rat) powi 802" by (simp add: power_int_minus flip: power_add)
  finally have "\<bar>r3 / b\<bar> \<le> 2 powi 802" .
  then obtain r4 where r4: "fl (r3 / b) = Fin r4" "\<bar>r4\<bar> \<le> 2 powi 802"
    using fl_bounded[of "r3 / b" 802] by auto
  have "\<bar>r4 * 100\<bar> = \<bar>r4\<bar> * 100" by (simp add: abs_mult)
  also have "\<dots> \<le> 2 powi 802 * 128" using r4(2) by (intro mult_mono) simp_all
  also have "\<dots> = (2::rat) powi 809" by (simp flip: power_add)
  finally have "\<bar>r4 * 100\<bar> \<le> 2 powi 809" .
  then obtain r5 where r5: "fl (r4 * 100) = Fin r5"
    using fl_bounded[of "r4 * 100" 809] by auto
  have "ProfitStats.profitPercentage (calculateProfitStats p c d w) = Fin r5"
    using b0 by (simp add: profitPercentage_unfold r1 r2 r3 b r4 r5)
  then show ?thesis by (simp add: isFinite_def)
qed

lemma fl_3_2: "fl (3 / 2) = Fin (3 / 2)"
  by (rule fl_exact[where m = 3 and e = "- 1"]) simp_all

text \<open>
  Claim C5, as the code has it. The percentage is the profit amount divided by a
  divisor and multiplied by 100, where the divisor is \<open>previousBalance\<close> when
  \<open>previousBalance > 0\<close>, else \<open>userDeposit\<close> when \<open>userDeposit > 0\<close>, else 1. The
  divisor is \<open>> 0\<close> for all numbers whatsoever (it is never zero, negative or NaN), so
  the division never divides by zero; the classifier is a total function, so nothing
  is raised. The percentage is a finite number whenever each of the four inputs is
  zero or has a magnitude between \<open>2 powi (- 400)\<close> and \<open>2 ^ 400\<close>. The examples:
  \<open>classify(0, 50, 0, 0)\<close> has percentage 5000, and \<open>classify(0, 50, 20, 0)\<close> has profit
  amount 30 and percentage 150.
\<close>

theorem classifier_percentage_base:
  "ProfitStats.profitPercentage (calculateProfitStats p c d w)
     = fmul (fdiv (profitAmount (calculateProfitStats p c d w))
                  (if fgt p (Fin 0) then p else if fgt d (Fin 0) then d else Fin 1))
            (Fin 100)
   \<and> fgt (if fgt p (Fin 0) then p else if fgt d (Fin 0) then d else Fin 1) (Fin 0)
   \<and> (moderate p \<and> moderate c \<and> moderate d \<and> moderate w \<longrightarrow>
        isFinite (ProfitStats.profitPercentage (calculateProfitStats p c d w)))
   \<and> ProfitStats.profitPercentage (calculateProfitStats (Fin 0) (Fin 50) (Fin 0) (Fin 0)) = Fin 5000
   \<and> profitAmount (calculateProfitStats (Fin 0) (Fin 50) (Fin 20) (Fin 0)) = Fin 30
   \<and> ProfitStats.profitPercentage (calculateProfitStats (Fin 0) (Fin 50) (Fin 20) (Fin 0)) = Fin 150"
proof -
  have "ProfitStats.profitPercentage (calculateProfitStats (Fin 0) (Fin 50) (Fin 0) (Fin 0)) = Fin 5000"
    "profitAmount (calculateProfitStats (Fin 0) (Fin 50) (Fin 20) (Fin 0)) = Fin 30"
    "ProfitStats.profitPercentage (calculateProfitStats (Fin 0) (Fin 50) (Fin 20) (Fin 0)) = Fin 150"
    by (simp_all add: calculateProfitStats_def Let_def fl_3_2)
  then show ?thesis
    using profitPercentage_finite[of p c d w] profitBase_pos[of p d]
    by (simp add: profitPercentage_unfold(1) profitBase_def)
qed

theorem classifier_percentage_base_witness:
  "moderate (Fin 0) \<and> moderate (Fin 50) \<and> moderate (Fin 20)
   \<and> ProfitStats.profitPercentage (calculateProfitStats (Fin 0) (Fin 50) (Fin 20) (Fin 0)) = Fin 150
   \<and> isFinite (ProfitStats.profitPercentage (calculateProfitStats (Fin 0) (Fin 50) (Fin 20) (Fin 0)))"
proof -
  have "(2::rat) powi (- 400) \<le> 1"
    by (simp add: power_int_minus inverse_le_1_iff)
  then have m: "moderate (Fin 0)" "moderate (Fin 50)" "moderate (Fin 20)"
    by (simp_all add: moderate_def)
  show ?thesis
    using classifier_percentage_base[of "Fin 0" "Fin 50" "Fin 20" "Fin 0"] m by blast
qed

text \<open>
  The claim as the specification words it (a finite percentage for every finite input)
  fails by overflow: \<open>2 ^ 1023\<close> is a finite double, and
  \<open>classify(0, 2 ^ 1023, 0, 0)\<close> has the percentage \<open>(2 ^ 1023 / 1) * 100\<close>, which is
  \<open>Infinity\<close>.
\<close>

theorem classifier_percentage_overflow_counterexample:
  "isFinite (Fin 0) \<and> isFinite (Fin (2 ^ 1023)) \<and> fl (2 ^ 1023) = Fin (2 ^ 1023)
   \<and> ProfitStats.profitPercentage (calculateProfitStats (Fin 0) (Fin (2 ^ 1023)) (Fin 0) (Fin 0)) = PInf
   \<and> \<not> isFinite (ProfitStats.profitPercentage (calculateProfitStats (Fin 0) (Fin (2 ^ 1023)) (Fin 0) (Fin 0)))"
proof -
  have a: "fl (2 ^ 1023) = Fin (2 ^ 1023)"
    by (rule fl_exact[where m = 1 and e = 1023]) simp_all
  have b: "fl (2 ^ 1023 * 100) = PInf"
    by (rule fl_overflow) simp
  have "ProfitStats.profitPercentage (calculateProfitStats (Fin 0) (Fin (2 ^ 1023)) (Fin 0) (Fin 0)) = PInf"
    by (simp add: calculateProfitStats_def Let_def a b del: power_numeral)
  then show ?thesis using a by (simp add: isFinite_def del: power_numeral)
qed




section \<open>The healer: sorting, replay and the shape of the result\<close>

subsection \<open>The sort\<close>

lemma mset_insertRev: "mset (insertRev cmp x ys) = add_mset x (mset ys)"
  by (induction ys) simp_all

lemma mset_foldl_insertRev:
  "mset (foldl (\<lambda>acc x. insertRev cmp x acc) acc xs) = mset acc + mset xs"
  by (induction xs arbitrary: acc) (simp_all add: mset_insertRev)

lemma mset_sortCmp: "mset (sortCmp cmp xs) = mset xs"
  by (simp add: sortCmp_def mset_foldl_insertRev)

lemma set_sortCmp: "set (sortCmp cmp xs) = set xs"
  using mset_sortCmp[of cmp xs] by (metis set_mset_mset)

lemma length_sortCmp: "length (sortCmp cmp xs) = length xs"
  using mset_sortCmp[of cmp xs] by (metis size_mset)

lemma sortCmp_Nil_iff: "sortCmp cmp xs = [] \<longleftrightarrow> xs = []"
  using length_sortCmp[of cmp xs] by (metis length_0_conv)

text \<open>A list is in comparator order when no element is \<open>> 0\<close> against its right neighbour.\<close>

lemma foldl_insertRev_ordered:
  assumes "successively (\<lambda>a b. \<not> fgt (cmp a b) (Fin 0)) (rev acc @ xs)"
  shows "foldl (\<lambda>acc x. insertRev cmp x acc) acc xs = rev xs @ acc"
  using assms
proof (induction xs arbitrary: acc)
  case Nil
  then show ?case by simp
next
  case (Cons x xs)
  have step: "insertRev cmp x acc = x # acc"
  proof (cases acc)
    case Nil
    then show ?thesis by simp
  next
    case (Cons y ys)
    from Cons.prems have "successively (\<lambda>a b. \<not> fgt (cmp a b) (Fin 0)) (rev ys @ (y # x # xs))"
      by (simp add: Cons)
    then have "\<not> fgt (cmp y x) (Fin 0)"
      by (simp add: successively_append_iff)
    then show ?thesis by (simp add: Cons)
  qed
  have "successively (\<lambda>a b. \<not> fgt (cmp a b) (Fin 0)) (rev (x # acc) @ xs)"
    using Cons.prems by simp
  from Cons.IH[OF this] show ?case by (simp add: step)
qed

lemma sortCmp_ordered_id:
  "successively (\<lambda>a b. \<not> fgt (cmp a b) (Fin 0)) xs \<Longrightarrow> sortCmp cmp xs = xs"
  using foldl_insertRev_ordered[of cmp "[]" xs] by (simp add: sortCmp_def)

lemma insertRev_hd:
  "hd (insertRev cmp x ys) = (case ys of [] \<Rightarrow> x | y # _ \<Rightarrow> if fgt (cmp y x) (Fin 0) then y else x)"
  by (cases ys) simp_all

lemma insertRev_not_Nil [simp]: "insertRev cmp x ys \<noteq> []"
  by (cases ys) simp_all

lemma insertRev_ordered:
  assumes asym: "\<And>a b. fgt (cmp b a) (Fin 0) \<Longrightarrow> \<not> fgt (cmp a b) (Fin 0)"
    and "successively (\<lambda>a b. \<not> fgt (cmp b a) (Fin 0)) ys"
  shows "successively (\<lambda>a b. \<not> fgt (cmp b a) (Fin 0)) (insertRev cmp x ys)"
  using assms(2)
proof (induction ys)
  case Nil
  then show ?case by simp
next
  case (Cons y ys)
  show ?case
  proof (cases "fgt (cmp y x) (Fin 0)")
    case False
    then show ?thesis using Cons.prems by (simp add: successively_Cons)
  next
    case True
    have "successively (\<lambda>a b. \<not> fgt (cmp b a) (Fin 0)) ys"
      using Cons.prems by (cases ys) simp_all
    then have tl: "successively (\<lambda>a b. \<not> fgt (cmp b a) (Fin 0)) (insertRev cmp x ys)"
      by (rule Cons.IH)
    have hd: "\<not> fgt (cmp (hd (insertRev cmp x ys)) y) (Fin 0)"
      using Cons.prems True asym by (cases ys) (auto simp add: successively_Cons)
    show ?thesis using True tl hd by (simp add: successively_Cons)
  qed
qed

lemma foldl_insertRev_ordered_inv:
  assumes asym: "\<And>a b. fgt (cmp b a) (Fin 0) \<Longrightarrow> \<not> fgt (cmp a b) (Fin 0)"
    and "successively (\<lambda>a b. \<not> fgt (cmp b a) (Fin 0)) acc"
  shows "successively (\<lambda>a b. \<not> fgt (cmp b a) (Fin 0)) (foldl (\<lambda>acc x. insertRev cmp x acc) acc xs)"
  using assms(2)
  by (induction xs arbitrary: acc) (simp_all add: insertRev_ordered[OF asym])

lemma sortCmp_ordered:
  assumes asym: "\<And>a b. fgt (cmp b a) (Fin 0) \<Longrightarrow> \<not> fgt (cmp a b) (Fin 0)"
  shows "successively (\<lambda>a b. \<not> fgt (cmp a b) (Fin 0)) (sortCmp cmp xs)"
  using foldl_insertRev_ordered_inv[where cmp = cmp and acc = "[]" and xs = xs] asym
  by (simp add: sortCmp_def successively_rev)

lemma fsub_asym: "fgt (fsub y x) (Fin 0) \<Longrightarrow> \<not> fgt (fsub x y) (Fin 0)"
proof (cases x; cases y)
  fix a b assume xy: "x = Fin a" "y = Fin b" and gt: "fgt (fsub y x) (Fin 0)"
  have "\<not> b - a \<le> 0" using fl_sign(2)[of "b - a"] gt xy by auto
  then have "a - b \<le> 0" by simp
  then show "\<not> fgt (fsub x y) (Fin 0)" using fl_sign(2)[of "a - b"] xy by simp
qed simp_all

lemma dateCmp_asym:
  "fgt (dateCmp getTime b a) (Fin 0) \<Longrightarrow> \<not> fgt (dateCmp getTime a b) (Fin 0)"
  unfolding dateCmp_def by (rule fsub_asym)

lemma sortCmp_dateCmp_idem:
  "sortCmp (dateCmp getTime) (sortCmp (dateCmp getTime) xs) = sortCmp (dateCmp getTime) xs"
  by (rule sortCmp_ordered_id) (rule sortCmp_ordered, rule dateCmp_asym)


text \<open>On integer keys the model of the sort is the stable sort by key.\<close>

lemma insertRev_filter:
  assumes "\<And>y. fgt (cmp y x) (Fin 0) \<Longrightarrow> k y \<noteq> k x"
  shows "filter (\<lambda>y. c = k y) (insertRev cmp x acc)
     = (if c = k x then x # filter (\<lambda>y. c = k y) acc else filter (\<lambda>y. c = k y) acc)"
  by (induction acc) (auto dest: assms)

lemma foldl_insertRev_filter:
  assumes "\<And>x y. fgt (cmp y x) (Fin 0) \<Longrightarrow> k y \<noteq> k x"
  shows "filter (\<lambda>y. c = k y) (foldl (\<lambda>acc x. insertRev cmp x acc) acc xs)
     = rev (filter (\<lambda>y. c = k y) xs) @ filter (\<lambda>y. c = k y) acc"
  by (induction xs arbitrary: acc) (simp_all add: insertRev_filter[where k = k, OF assms])

lemma set_insertRev: "set (insertRev cmp x acc) = insert x (set acc)"
  using mset_insertRev[of cmp x acc] by (metis set_mset_mset set_mset_add_mset_insert)

lemma insertRev_sorted:
  fixes k :: "'a \<Rightarrow> int"
  assumes "\<And>x y. fgt (cmp y x) (Fin 0) \<longleftrightarrow> k x < k y"
    and "sorted_wrt (\<lambda>a b. k b \<le> k a) acc"
  shows "sorted_wrt (\<lambda>a b. k b \<le> k a) (insertRev cmp x acc)"
  using assms(2) by (induction acc) (auto simp add: assms(1) set_insertRev)

lemma foldl_insertRev_sorted:
  fixes k :: "'a \<Rightarrow> int"
  assumes "\<And>x y. fgt (cmp y x) (Fin 0) \<longleftrightarrow> k x < k y"
    and "sorted_wrt (\<lambda>a b. k b \<le> k a) acc"
  shows "sorted_wrt (\<lambda>a b. k b \<le> k a) (foldl (\<lambda>acc x. insertRev cmp x acc) acc xs)"
  using assms(2) by (induction xs arbitrary: acc) (simp_all add: insertRev_sorted[where k = k, OF assms(1)])

lemma sortCmp_sort_key:
  fixes k :: "'a \<Rightarrow> int"
  assumes cmp: "\<And>x y. fgt (cmp y x) (Fin 0) \<longleftrightarrow> k x < k y"
  shows "sortCmp cmp xs = sort_key k xs"
proof (rule properties_for_sort_key[symmetric])
  show "mset (sortCmp cmp xs) = mset xs" by (rule mset_sortCmp)
next
  fix c assume "c \<in> set (sortCmp cmp xs)"
  have "filter (\<lambda>y. k c = k y) (foldl (\<lambda>acc x. insertRev cmp x acc) [] xs)
      = rev (filter (\<lambda>y. k c = k y) xs) @ filter (\<lambda>y. k c = k y) []"
    by (rule foldl_insertRev_filter) (simp add: cmp)
  then show "filter (\<lambda>y. k c = k y) (sortCmp cmp xs) = filter (\<lambda>y. k c = k y) xs"
    by (simp add: sortCmp_def rev_filter[symmetric])
next
  have "sorted_wrt (\<lambda>a b. k b \<le> k a) (foldl (\<lambda>acc x. insertRev cmp x acc) [] xs)"
    by (rule foldl_insertRev_sorted[OF cmp]) simp
  then have "sorted_wrt (\<lambda>a b. k a \<le> k b) (sortCmp cmp xs)"
    by (simp add: sortCmp_def sorted_wrt_rev)
  then show "sorted (map k (sortCmp cmp xs))"
    by (simp add: sorted_wrt_map)
qed

lemma sortCmp_cong:
  assumes "\<And>a b. a \<in> set xs \<Longrightarrow> b \<in> set xs \<Longrightarrow> cmp a b = cmp' a b"
  shows "sortCmp cmp xs = sortCmp cmp' xs"
proof -
  have ins: "insertRev cmp x acc = insertRev cmp' x acc"
    if "\<And>y. y \<in> set acc \<Longrightarrow> cmp y x = cmp' y x" for x acc
    using that by (induction acc) simp_all
  have "foldl (\<lambda>acc x. insertRev cmp x acc) acc ys = foldl (\<lambda>acc x. insertRev cmp' x acc) acc ys"
    if "set acc \<union> set ys \<subseteq> set xs" for acc ys
    using that
  proof (induction ys arbitrary: acc)
    case Nil
    then show ?case by simp
  next
    case (Cons y ys)
    have 1: "insertRev cmp y acc = insertRev cmp' y acc"
      using Cons.prems by (intro ins assms) auto
    have "set (insertRev cmp' y acc) \<union> set ys \<subseteq> set xs"
      using Cons.prems by (auto simp add: set_insertRev)
    from Cons.IH[OF this] show ?case by (simp add: 1)
  qed
  from this[of "[]" xs] show ?thesis by (simp add: sortCmp_def)
qed

text \<open>
  When every date of the collection is a valid date (its time value is an integer
  number of milliseconds), the chain of an account is the stable sort of its
  transactions by time value.
\<close>

lemma chainOf_sort_key:
  assumes "\<And>t. t \<in> set txs \<Longrightarrow> dateTime getTime (date t) = Fin (of_int (k t))"
  shows "chainOf getTime accId txs = sort_key k (filter (\<lambda>t. accountId t = accId) txs)"
proof -
  have "sortCmp (dateCmp getTime) (filter (\<lambda>t. accountId t = accId) txs)
      = sortCmp (\<lambda>a b. fsub (Fin (of_int (k a))) (Fin (of_int (k b)))) (filter (\<lambda>t. accountId t = accId) txs)"
    by (rule sortCmp_cong) (simp add: dateCmp_def assms)
  also have "\<dots> = sort_key k (filter (\<lambda>t. accountId t = accId) txs)"
    by (rule sortCmp_sort_key) (rule fgt_fsub_of_int)
  finally show ?thesis by (simp add: chainOf_def)
qed

subsection \<open>The replay\<close>

lemma healMap_length [simp]: "length (healMap b xs) = length xs"
  by (induction xs arbitrary: b) (simp_all add: Let_def)

lemma healMap_Nil_iff [simp]: "healMap b xs = [] \<longleftrightarrow> xs = []"
  by (cases xs) (simp_all add: Let_def)

lemma healMap_accountId: "map accountId (healMap b xs) = map accountId xs"
  by (induction xs arbitrary: b) (simp_all add: Let_def)

lemma healMap_date: "map date (healMap b xs) = map date xs"
  by (induction xs arbitrary: b) (simp_all add: Let_def)

lemma healMap_inputs: "map inputsOf (healMap b xs) = map inputsOf xs"
  by (induction xs arbitrary: b) (simp_all add: Let_def inputsOf_def)

lemma healMap_idem: "healMap b (healMap b xs) = healMap b xs"
  by (induction xs arbitrary: b) (simp_all add: Let_def)


lemma healMap_last:
  "xs \<noteq> [] \<Longrightarrow> Transaction.currentBalance (last (healMap b xs)) = Transaction.currentBalance (last xs)"
  by (induction xs arbitrary: b) (simp_all add: Let_def)

lemma healMap_profit:
  "t \<in> set (healMap b xs) \<Longrightarrow>
     calculatedProfit t =
       fsub (fsub (Transaction.currentBalance t) (previousBalance t)) (fsub (userDeposit t) (withdrawal t))"
  by (induction xs arbitrary: b) (auto simp add: Let_def calculateProfitStats_def)

lemma healMap_accountId_set:
  assumes "\<forall>t\<in>set xs. accountId t = accId" and "t \<in> set (healMap b xs)"
  shows "accountId t = accId"
proof -
  have "accountId t \<in> set (map accountId (healMap b xs))" using assms(2) by simp
  then show ?thesis using assms(1) by (auto simp add: healMap_accountId)
qed

lemma healMap_ordered:
  "successively (\<lambda>a b. \<not> fgt (dateCmp getTime a b) (Fin 0)) (healMap b xs)
     = successively (\<lambda>a b. \<not> fgt (dateCmp getTime a b) (Fin 0)) xs"
proof -
  have "successively (\<lambda>a b. \<not> fgt (dateCmp getTime a b) (Fin 0)) ys
      = successively (\<lambda>d e. \<not> fgt (fsub (dateTime getTime d) (dateTime getTime e)) (Fin 0)) (map date ys)"
    for ys by (simp add: successively_map dateCmp_def)
  then show ?thesis by (simp add: healMap_date)
qed

subsection \<open>The healer\<close>

text \<open>The result of the healer when the account is found, with the local bindings named.\<close>

lemma heal_Some:
  assumes "find (\<lambda>a. Account.id a = accId) accs = Some account"
  shows "healTransactionChain getTime txs accId accs =
    (filter (\<lambda>t. accountId t \<noteq> accId) txs
       @ healMap (orElse (initialCapital account) (Fin 0)) (chainOf getTime accId txs),
     map (\<lambda>a. if Account.id a = accId
               then a\<lparr>Account.currentBalance :=
                        (if chainOf getTime accId txs \<noteq> []
                         then Transaction.currentBalance (last (chainOf getTime accId txs))
                         else initialCapital account)\<rparr>
               else a) accs)"
  using assms by (simp add: healTransactionChain_def chainOf_def Let_def healMap_last)

lemma chainOf_accountId: "t \<in> set (chainOf getTime accId txs) \<Longrightarrow> accountId t = accId"
  by (simp add: chainOf_def set_sortCmp)

lemma healed_chain_filter:
  "filter (\<lambda>t. accountId t = accId) (healMap b (chainOf getTime accId txs))
     = healMap b (chainOf getTime accId txs)"
  "filter (\<lambda>t. accountId t \<noteq> accId) (healMap b (chainOf getTime accId txs)) = []"
  using healMap_accountId_set[where accId = accId and b = b and xs = "chainOf getTime accId txs"]
    chainOf_accountId[of _ getTime accId txs]
  by (auto simp add: filter_empty_conv intro!: filter_True)

lemma chainOf_healed:
  "chainOf getTime accId (filter (\<lambda>t. accountId t \<noteq> accId) txs @ healMap b (chainOf getTime accId txs))
     = healMap b (chainOf getTime accId txs)"
proof -
  have ord: "successively (\<lambda>a b. \<not> fgt (dateCmp getTime a b) (Fin 0)) (chainOf getTime accId txs)"
    unfolding chainOf_def by (rule sortCmp_ordered) (rule dateCmp_asym)
  have "chainOf getTime accId (filter (\<lambda>t. accountId t \<noteq> accId) txs @ healMap b (chainOf getTime accId txs))
      = sortCmp (dateCmp getTime) (healMap b (chainOf getTime accId txs))"
    by (simp add: chainOf_def[of getTime accId "_ @ _"] healed_chain_filter)
  also have "\<dots> = healMap b (chainOf getTime accId txs)"
    by (rule sortCmp_ordered_id) (simp add: healMap_ordered ord)
  finally show ?thesis .
qed

lemma find_map_update:
  assumes "\<And>a. Account.id (f a) = Account.id a"
  shows "find (\<lambda>a. Account.id a = accId) (map f accs) = map_option f (find (\<lambda>a. Account.id a = accId) accs)"
  by (induction accs) (simp_all add: assms)

subsection \<open>Valid dates\<close>

text \<open>
  On valid dates the healer's comparator is consistent, its sort is the stable sort by
  time value, and \<open>accTxs\<close> is the account's transactions in date-sorted order.
\<close>

lemma validDates_dates:
  "validDates getTime ms txs
     \<longleftrightarrow> (\<forall>d \<in> set (map date txs). dateTime getTime d = Fin (of_int (ms d)))"
  by (auto simp add: validDates_def list_all_iff)

lemma sortCmp_valid:
  assumes "validDates getTime ms xs"
  shows "sortCmp (dateCmp getTime) xs = sort_key (\<lambda>t. ms (date t)) xs"
proof -
  have v: "dateTime getTime (date t) = Fin (of_int (ms (date t)))" if "t \<in> set xs" for t
    using assms that by (simp add: validDates_def list_all_iff)
  have "sortCmp (dateCmp getTime) xs
      = sortCmp (\<lambda>a b. fsub (Fin (of_int (ms (date a)))) (Fin (of_int (ms (date b))))) xs"
    by (rule sortCmp_cong) (simp add: dateCmp_def v)
  also have "\<dots> = sort_key (\<lambda>t. ms (date t)) xs"
    by (rule sortCmp_sort_key) (rule fgt_fsub_of_int)
  finally show ?thesis .
qed

lemma chainOf_valid:
  assumes "validDates getTime ms (filter (\<lambda>t. accountId t = accId) txs)"
  shows "chainOf getTime accId txs = dateSorted ms accId txs"
  unfolding chainOf_def dateSorted_def using assms by (rule sortCmp_valid)

text \<open>
  The healed chain is in date order already, so sorting it by date again, with the
  stable sort that ECMAScript prescribes for valid dates, returns it.
\<close>

lemma healed_sort_key:
  "sort_key (\<lambda>t. ms (date t)) (healMap b (sort_key (\<lambda>t. ms (date t)) xs))
     = healMap b (sort_key (\<lambda>t. ms (date t)) xs)"
proof (rule sort_key_id_if_sorted)
  have "map (\<lambda>t. ms (date t)) (healMap b (sort_key (\<lambda>t. ms (date t)) xs))
      = map ms (map date (healMap b (sort_key (\<lambda>t. ms (date t)) xs)))"
    by simp
  also have "\<dots> = map (\<lambda>t. ms (date t)) (sort_key (\<lambda>t. ms (date t)) xs)"
    by (simp add: healMap_date)
  finally show "sorted (map (\<lambda>t. ms (date t)) (healMap b (sort_key (\<lambda>t. ms (date t)) xs)))"
    by (simp only: sorted_sort_key)
qed

lemma healed_validDates:
  assumes "validDates getTime ms xs"
  shows "validDates getTime ms (healMap b (sort_key (\<lambda>t. ms (date t)) xs))"
proof -
  have "set (map date (healMap b (sort_key (\<lambda>t. ms (date t)) xs))) = set (map date xs)"
    by (simp add: healMap_date)
  then show ?thesis using assms by (simp only: validDates_dates)
qed

lemma healed_accountId_filter:
  assumes "\<forall>t \<in> set xs. accountId t = accId"
  shows "filter (\<lambda>t. accountId t = accId) (healMap b xs) = healMap b xs"
    and "filter (\<lambda>t. accountId t \<noteq> accId) (healMap b xs) = []"
  using healMap_accountId_set[OF assms, of _ b]
  by (auto simp add: filter_empty_conv intro!: filter_True)

lemma dateSorted_healed:
  fixes others :: "Transaction list"
  assumes o: "\<forall>t \<in> set others. accountId t \<noteq> accId"
  shows "dateSorted ms accId (others @ healMap b (dateSorted ms accId txs))
     = healMap b (dateSorted ms accId txs)"
proof -
  have a: "\<forall>t \<in> set (dateSorted ms accId txs). accountId t = accId"
    by (simp add: dateSorted_def)
  have f: "filter (\<lambda>t. accountId t = accId) (others @ healMap b (dateSorted ms accId txs))
      = healMap b (dateSorted ms accId txs)"
    using o by (simp add: healed_accountId_filter(1)[OF a] filter_empty_conv)
  show ?thesis
    unfolding dateSorted_def[of ms accId "_ @ _"] f
    unfolding dateSorted_def by (rule healed_sort_key)
qed

lemma chainOf_healed_valid:
  assumes v: "validDates getTime ms (filter (\<lambda>t. accountId t = accId) txs)"
  shows "chainOf getTime accId
           (filter (\<lambda>t. accountId t \<noteq> accId) txs @ healMap b (chainOf getTime accId txs))
         = healMap b (chainOf getTime accId txs)"
proof -
  let ?others = "filter (\<lambda>t. accountId t \<noteq> accId) txs"
  let ?H = "healMap b (dateSorted ms accId txs)"
  have c: "chainOf getTime accId txs = dateSorted ms accId txs"
    using v by (rule chainOf_valid)
  have a: "\<forall>t \<in> set (dateSorted ms accId txs). accountId t = accId"
    by (simp add: dateSorted_def)
  have f: "filter (\<lambda>t. accountId t = accId) (?others @ ?H) = ?H"
    by (simp add: healed_accountId_filter(1)[OF a])
  have "validDates getTime ms ?H"
    unfolding dateSorted_def using v by (rule healed_validDates)
  then have "validDates getTime ms (filter (\<lambda>t. accountId t = accId) (?others @ ?H))"
    by (simp only: f)
  then have "chainOf getTime accId (?others @ ?H) = dateSorted ms accId (?others @ ?H)"
    by (rule chainOf_valid)
  also have "\<dots> = ?H"
    by (rule dateSorted_healed) simp
  finally show ?thesis by (simp only: c)
qed

subsection \<open>The healer on the sample data\<close>

lemmas sample_defs = exampleTime_def accountA_def accountB_def txFeb_def txJan_def txOther_def

lemma fl_quarter: "fl (1 / 4) = Fin (1 / 4)"
  by (rule fl_exact[where m = 1 and e = "- 2"]) simp_all

lemma sample_chain:
  "chainOf exampleTime ''acc-1'' [txFeb, txOther, txJan] = [txJan, txFeb]"
  by (simp add: chainOf_def sortCmp_def dateCmp_def dateTime_def sample_defs)

lemma sample_heal:
  "healTransactionChain exampleTime [txFeb, txOther, txJan] ''acc-1'' [accountA, accountB] =
    ([txOther,
      txJan\<lparr>previousBalance := Fin 800, calculatedProfit := Fin 200,
            Transaction.profitPercentage := Fin 25, Transaction.type := BANK_PROFIT\<rparr>,
      txFeb\<lparr>previousBalance := Fin 1000, calculatedProfit := Fin 250,
            Transaction.profitPercentage := Fin 25, Transaction.type := MIXED\<rparr>],
     [accountA\<lparr>Account.currentBalance := Fin 1350\<rparr>, accountB])"
proof -
  have f: "find (\<lambda>a. Account.id a = ''acc-1'') [accountA, accountB] = Some accountA"
    by (simp add: sample_defs)
  have i: "initialCapital accountA = Fin 800" "orElse (Fin 800) (Fin 0) = Fin 800"
    by (simp_all add: orElse_def accountA_def)
  have o: "filter (\<lambda>t. accountId t \<noteq> ''acc-1'') [txFeb, txOther, txJan] = [txOther]"
    by (simp add: sample_defs)
  have h: "healMap (Fin 800) [txJan, txFeb] =
     [txJan\<lparr>previousBalance := Fin 800, calculatedProfit := Fin 200,
            Transaction.profitPercentage := Fin 25, Transaction.type := BANK_PROFIT\<rparr>,
      txFeb\<lparr>previousBalance := Fin 1000, calculatedProfit := Fin 250,
            Transaction.profitPercentage := Fin 25, Transaction.type := MIXED\<rparr>]"
    by (simp add: calculateProfitStats_def Let_def fl_quarter txJan_def txFeb_def)
  have l: "Transaction.currentBalance (last [txJan, txFeb]) = Fin 1350"
    by (simp add: txFeb_def)
  have m: "Account.id accountA = ''acc-1''" "Account.id accountB \<noteq> ''acc-1''"
    by (simp_all add: sample_defs)
  show ?thesis
    by (simp only: heal_Some[OF f] sample_chain i o h l) (simp add: m)
qed


lemma sample_valid:
  "validDates exampleTime exampleMs (filter (\<lambda>t. accountId t = ''acc-1'') [txFeb, txOther, txJan])"
  by (simp add: validDates_def dateTime_def exampleTime_def exampleMs_def txFeb_def txJan_def txOther_def)


section \<open>The healer: the claims\<close>

text \<open>
  Claim C2. Healing is idempotent: for every transaction collection, target account id
  and account collection in which the dates of the target account's transactions are
  valid, healing the output of a heal again returns that output, both the transaction
  list and the account list, field for field. Valid dates are what makes the host's
  sort determinate; the proof uses of the sort only that it is the stable sort by time
  value.
\<close>

theorem heal_idempotent:
  assumes valid: "validDates getTime ms (filter (\<lambda>t. accountId t = accId) txs)"
  shows "healTransactionChain getTime
      (fst (healTransactionChain getTime txs accId accs)) accId
      (snd (healTransactionChain getTime txs accId accs))
   = healTransactionChain getTime txs accId accs"
proof (cases "find (\<lambda>a. Account.id a = accId) accs")
  case None
  then show ?thesis by (simp add: healTransactionChain_def)
next
  case (Some account)
  define fb where "fb = (if chainOf getTime accId txs \<noteq> []
                         then Transaction.currentBalance (last (chainOf getTime accId txs))
                         else initialCapital account)"
  define upd :: "Account \<Rightarrow> Account"
    where "upd = (\<lambda>a. if Account.id a = accId then a\<lparr>Account.currentBalance := fb\<rparr> else a)"
  define b where "b = orElse (initialCapital account) (Fin 0)"
  define healed where "healed = healMap b (chainOf getTime accId txs)"
  define others where "others = filter (\<lambda>t. accountId t \<noteq> accId) txs"
  have first: "healTransactionChain getTime txs accId accs = (others @ healed, map upd accs)"
    by (simp add: heal_Some[OF Some] fb_def upd_def b_def healed_def others_def)
  have "find (\<lambda>a. Account.id a = accId) (map upd accs) = Some (upd account)"
    by (simp add: find_map_update upd_def Some)
  then have E: "healTransactionChain getTime (others @ healed) accId (map upd accs) =
    (filter (\<lambda>t. accountId t \<noteq> accId) (others @ healed)
       @ healMap (orElse (initialCapital (upd account)) (Fin 0)) (chainOf getTime accId (others @ healed)),
     map (\<lambda>a. if Account.id a = accId
               then a\<lparr>Account.currentBalance :=
                        (if chainOf getTime accId (others @ healed) \<noteq> []
                         then Transaction.currentBalance (last (chainOf getTime accId (others @ healed)))
                         else initialCapital (upd account))\<rparr>
               else a) (map upd accs))"
    by (rule heal_Some)
  have c1: "chainOf getTime accId (others @ healed) = healed"
    unfolding others_def healed_def using valid by (rule chainOf_healed_valid)
  have c2: "orElse (initialCapital account) (Fin 0) = b"
    and c3: "initialCapital (upd account) = initialCapital account"
    by (simp_all add: upd_def b_def)
  have c4: "filter (\<lambda>t. accountId t \<noteq> accId) (others @ healed) = others"
    by (simp add: others_def healed_def healed_chain_filter)
  have c5: "healMap b healed = healed"
    by (simp add: healed_def healMap_idem)
  have c6: "(if healed \<noteq> [] then Transaction.currentBalance (last healed) else initialCapital account) = fb"
    by (simp add: healed_def fb_def healMap_last)
  have c7: "map (\<lambda>a. if Account.id a = accId then a\<lparr>Account.currentBalance := fb\<rparr> else a) (map upd accs)
      = map upd accs"
    by (simp add: upd_def)
  have "healTransactionChain getTime (others @ healed) accId (map upd accs) = (others @ healed, map upd accs)"
    by (simp only: E c1 c2 c3 c4 c5 c6 c7)
  then show ?thesis
    by (simp only: first fst_conv snd_conv)
qed

theorem heal_idempotent_witness:
  "validDates exampleTime exampleMs (filter (\<lambda>t. accountId t = ''acc-1'') [txFeb, txOther, txJan])
   \<and> healTransactionChain exampleTime
      (fst (healTransactionChain exampleTime [txFeb, txOther, txJan] ''acc-1'' [accountA, accountB]))
      ''acc-1''
      (snd (healTransactionChain exampleTime [txFeb, txOther, txJan] ''acc-1'' [accountA, accountB]))
   = ([txOther,
       txJan\<lparr>previousBalance := Fin 800, calculatedProfit := Fin 200,
             Transaction.profitPercentage := Fin 25, Transaction.type := BANK_PROFIT\<rparr>,
       txFeb\<lparr>previousBalance := Fin 1000, calculatedProfit := Fin 250,
             Transaction.profitPercentage := Fin 25, Transaction.type := MIXED\<rparr>],
      [accountA\<lparr>Account.currentBalance := Fin 1350\<rparr>, accountB])"
  using heal_idempotent[OF sample_valid, of "[accountA, accountB]"] sample_valid
  by (simp only: sample_heal simp_thms)

text \<open>
  Claim C6. If no account of the collection has the target id, the healer returns both
  inputs unchanged: the same transaction list and the same account list. The healer is
  a total function, so there is no failure to rule out.
\<close>

theorem heal_missing_account_noop:
  assumes "\<forall>a\<in>set accs. Account.id a \<noteq> accId"
  shows "healTransactionChain getTime txs accId accs = (txs, accs)"
proof -
  have "find (\<lambda>a. Account.id a = accId) accs = None"
    using assms by (simp add: find_None_iff)
  then show ?thesis by (simp add: healTransactionChain_def)
qed

theorem heal_missing_account_noop_witness:
  "list_all (\<lambda>a. Account.id a \<noteq> ''nonexistent-id'') [accountA, accountB]
   \<and> healTransactionChain exampleTime [txFeb, txOther, txJan] ''nonexistent-id'' [accountA, accountB]
       = ([txFeb, txOther, txJan], [accountA, accountB])"
  using heal_missing_account_noop[of "[accountA, accountB]" "''nonexistent-id''" exampleTime
      "[txFeb, txOther, txJan]"]
  by (simp add: accountA_def accountB_def)

text \<open>
  Claim C7. Healing account A leaves everything outside A alone: the transactions of
  other accounts are in the output unchanged and in their order; A's own transactions
  are in the output with their authoritative inputs unchanged (only the four derived
  fields can differ); the account list keeps its length and order, every account whose
  id is not A is unchanged, and an account with id A differs at most in
  \<open>currentBalance\<close>.
\<close>

theorem heal_frame:
  "filter (\<lambda>t. accountId t \<noteq> accId) (fst (healTransactionChain getTime txs accId accs))
      = filter (\<lambda>t. accountId t \<noteq> accId) txs
   \<and> mset (map inputsOf (filter (\<lambda>t. accountId t = accId)
              (fst (healTransactionChain getTime txs accId accs))))
      = mset (map inputsOf (filter (\<lambda>t. accountId t = accId) txs))
   \<and> length (snd (healTransactionChain getTime txs accId accs)) = length accs
   \<and> (\<forall>i < length accs.
        (Account.id (accs ! i) \<noteq> accId \<longrightarrow>
           snd (healTransactionChain getTime txs accId accs) ! i = accs ! i)
        \<and> (snd (healTransactionChain getTime txs accId accs) ! i)
             \<lparr>Account.currentBalance := Account.currentBalance (accs ! i)\<rparr> = accs ! i)"
proof (cases "find (\<lambda>a. Account.id a = accId) accs")
  case None
  then show ?thesis by (simp add: healTransactionChain_def)
next
  case (Some account)
  define b where "b = orElse (initialCapital account) (Fin 0)"
  have "mset (map inputsOf (healMap b (chainOf getTime accId txs)))
      = mset (map inputsOf (filter (\<lambda>t. accountId t = accId) txs))"
    by (simp add: healMap_inputs chainOf_def mset_sortCmp)
  then show ?thesis
    by (simp add: heal_Some[OF Some] healed_chain_filter flip: b_def)
qed

theorem heal_frame_witness:
  "filter (\<lambda>t. accountId t \<noteq> ''acc-1'')
      (fst (healTransactionChain exampleTime [txFeb, txOther, txJan] ''acc-1'' [accountA, accountB]))
      = [txOther]
   \<and> snd (healTransactionChain exampleTime [txFeb, txOther, txJan] ''acc-1'' [accountA, accountB]) ! 1
      = accountB
   \<and> (snd (healTransactionChain exampleTime [txFeb, txOther, txJan] ''acc-1'' [accountA, accountB]) ! 0)
        \<lparr>Account.currentBalance := Fin 800\<rparr> = accountA"
  using heal_frame[of "''acc-1''" exampleTime "[txFeb, txOther, txJan]" "[accountA, accountB]"]
  by (simp add: sample_heal) (simp add: sample_defs)




section \<open>The profit identity\<close>

lemma fsub_of_int:
  "\<bar>a - b\<bar> < 2 ^ 53 \<Longrightarrow> fsub (Fin (of_int a)) (Fin (of_int b)) = Fin (of_int (a - b))"
  using fl_of_int[of "a - b"] by simp

lemma fadd_of_int:
  "\<bar>a + b\<bar> < 2 ^ 53 \<Longrightarrow> fadd (Fin (of_int a)) (Fin (of_int b)) = Fin (of_int (a + b))"
  using fl_of_int[of "a + b"] by simp

lemma healed_profit:
  assumes "find (\<lambda>a. Account.id a = accId) accs = Some account"
    and "t \<in> set (fst (healTransactionChain getTime txs accId accs))"
    and "accountId t = accId"
  shows "calculatedProfit t =
    fsub (fsub (Transaction.currentBalance t) (previousBalance t)) (fsub (userDeposit t) (withdrawal t))"
proof -
  have "t \<in> set (healMap (orElse (initialCapital account) (Fin 0)) (chainOf getTime accId txs))"
    using assms(2,3) by (auto simp add: heal_Some[OF assms(1)])
  then show ?thesis by (rule healMap_profit)
qed

text \<open>
  Claim C3, as the code has it. The profit amount is
  \<open>(currentBalance - previousBalance) - (userDeposit - withdrawal)\<close>, each subtraction
  rounded to the nearest double. For integer inputs of magnitude at most \<open>2 ^ 50\<close> no
  step rounds, and the profit amount is exactly the integer
  \<open>currentBalance - previousBalance - userDeposit + withdrawal\<close>, which is then also the
  value of that expression evaluated from left to right in doubles. After a heal of an
  existing account, every transaction of that account satisfies
  \<open>calculatedProfit = (currentBalance - previousBalance) - (userDeposit - withdrawal)\<close>
  in double arithmetic.
\<close>

theorem classifier_profit_identity:
  "profitAmount (calculateProfitStats p c d w) = fsub (fsub c p) (fsub d w)
   \<and> (\<bar>P\<bar> \<le> 2 ^ 50 \<and> \<bar>C\<bar> \<le> 2 ^ 50 \<and> \<bar>D\<bar> \<le> 2 ^ 50 \<and> \<bar>W\<bar> \<le> 2 ^ 50 \<longrightarrow>
        profitAmount (calculateProfitStats (Fin (of_int P)) (Fin (of_int C)) (Fin (of_int D)) (Fin (of_int W)))
          = Fin (of_int (C - P - D + W))
        \<and> fadd (fsub (fsub (Fin (of_int C)) (Fin (of_int P))) (Fin (of_int D))) (Fin (of_int W))
          = Fin (of_int (C - P - D + W)))
   \<and> (find (\<lambda>a. Account.id a = accId) accs = Some account \<longrightarrow>
        (\<forall>t \<in> set (fst (healTransactionChain getTime txs accId accs)).
           accountId t = accId \<longrightarrow>
           calculatedProfit t =
             fsub (fsub (Transaction.currentBalance t) (previousBalance t))
                  (fsub (userDeposit t) (withdrawal t))))"
proof (intro conjI impI ballI)
  show "profitAmount (calculateProfitStats p c d w) = fsub (fsub c p) (fsub d w)"
    by (rule profitPercentage_unfold(2))
next
  assume b: "\<bar>P\<bar> \<le> 2 ^ 50 \<and> \<bar>C\<bar> \<le> 2 ^ 50 \<and> \<bar>D\<bar> \<le> 2 ^ 50 \<and> \<bar>W\<bar> \<le> 2 ^ 50"
  have 1: "fsub (Fin (of_int C)) (Fin (of_int P)) = Fin (of_int (C - P))"
    using b by (intro fsub_of_int) (simp, linarith)
  have 2: "fsub (Fin (of_int D)) (Fin (of_int W)) = Fin (of_int (D - W))"
    using b by (intro fsub_of_int) (simp, linarith)
  have 3: "fsub (Fin (of_int (C - P))) (Fin (of_int (D - W))) = Fin (of_int (C - P - (D - W)))"
    using b by (intro fsub_of_int) (simp, linarith)
  have 4: "fsub (Fin (of_int (C - P))) (Fin (of_int D)) = Fin (of_int (C - P - D))"
    using b by (intro fsub_of_int) (simp, linarith)
  have 5: "fadd (Fin (of_int (C - P - D))) (Fin (of_int W)) = Fin (of_int (C - P - D + W))"
    using b by (intro fadd_of_int) (simp, linarith)
  have 6: "C - P - (D - W) = C - P - D + W" by simp
  show "profitAmount (calculateProfitStats (Fin (of_int P)) (Fin (of_int C)) (Fin (of_int D)) (Fin (of_int W)))
          = Fin (of_int (C - P - D + W))"
    by (simp only: profitPercentage_unfold(2) 1 2 3 6)
  show "fadd (fsub (fsub (Fin (of_int C)) (Fin (of_int P))) (Fin (of_int D))) (Fin (of_int W))
          = Fin (of_int (C - P - D + W))"
    by (simp only: 1 4 5)
next
  fix t
  assume "find (\<lambda>a. Account.id a = accId) accs = Some account"
    and "t \<in> set (fst (healTransactionChain getTime txs accId accs))"
    and "accountId t = accId"
  then show "calculatedProfit t =
             fsub (fsub (Transaction.currentBalance t) (previousBalance t))
                  (fsub (userDeposit t) (withdrawal t))"
    by (rule healed_profit)
qed

theorem classifier_profit_identity_witness:
  "profitAmount (calculateProfitStats (Fin 100) (Fin 120) (Fin 5) (Fin 10)) = Fin 25
   \<and> fadd (fsub (fsub (Fin 120) (Fin 100)) (Fin 5)) (Fin 10) = Fin 25
   \<and> find (\<lambda>a. Account.id a = ''acc-1'') [accountA, accountB] = Some accountA
   \<and> list_all (\<lambda>t. accountId t = ''acc-1'' \<longrightarrow>
        calculatedProfit t =
          fsub (fsub (Transaction.currentBalance t) (previousBalance t)) (fsub (userDeposit t) (withdrawal t)))
       (fst (healTransactionChain exampleTime [txFeb, txOther, txJan] ''acc-1'' [accountA, accountB]))"
proof -
  have f: "find (\<lambda>a. Account.id a = ''acc-1'') [accountA, accountB] = Some accountA"
    by (simp add: sample_defs)
  have "(\<bar>100::int\<bar> \<le> 2 ^ 50 \<and> \<bar>120::int\<bar> \<le> 2 ^ 50 \<and> \<bar>5::int\<bar> \<le> 2 ^ 50 \<and> \<bar>10::int\<bar> \<le> 2 ^ 50)"
    by simp
  with f show ?thesis
    using classifier_profit_identity[of _ _ _ _ 100 120 5 10 "''acc-1''" "[accountA, accountB]" accountA
        exampleTime "[txFeb, txOther, txJan]"]
    by (simp add: list_all_iff)
qed

text \<open>
  The claim as the specification words it fails by rounding. At previous balance 0,
  current balance \<open>2 ^ 54\<close>, deposit 5 and withdrawal 2 (all doubles) the classifier
  returns \<open>2 ^ 54 - 4\<close>; the expression \<open>curr - prev - dep + wd\<close> evaluated from left to
  right in doubles is \<open>2 ^ 54 - 2\<close>; and its exact value is \<open>2 ^ 54 - 3\<close>.
\<close>

lemma fl_2_54: "fl 18014398509481984 = Fin 18014398509481984"
  by (rule fl_exact[where m = "2 ^ 52" and e = 2]) simp_all

lemma fl_2_54_m2: "fl 18014398509481982 = Fin 18014398509481982"
  by (rule fl_exact[where m = "2 ^ 53 - 1" and e = 1]) simp_all

lemma fl_2_54_m3: "fl 18014398509481981 = Fin 18014398509481980"
  by (subst fl_eval_pos[where k = 53]) (simp_all add: roundHalfEven_numeral_div Let_def)

lemma fl_2_54_m5: "fl 18014398509481979 = Fin 18014398509481980"
  by (subst fl_eval_pos[where k = 53]) (simp_all add: roundHalfEven_numeral_div Let_def)

theorem classifier_profit_identity_counterexample:
  "fl 18014398509481984 = Fin 18014398509481984
   \<and> profitAmount (calculateProfitStats (Fin 0) (Fin 18014398509481984) (Fin 5) (Fin 2))
       = Fin 18014398509481980
   \<and> fadd (fsub (fsub (Fin 18014398509481984) (Fin 0)) (Fin 5)) (Fin 2) = Fin 18014398509481982
   \<and> (18014398509481984 - 0 - 5 + 2 :: rat) = 18014398509481981"
  by (simp add: calculateProfitStats_def Let_def fl_2_54 fl_2_54_m2 fl_2_54_m3 fl_2_54_m5)


section \<open>The import merge (handleImport)\<close>

text \<open>
  Claim C10. Merging an import never modifies or replaces a record that is already in
  the state: the accounts and the transactions of the state are a prefix of the new
  lists, unchanged and in their order. What is appended is exactly the imported
  records whose id is non-empty and is not the id of a record of the state, in their
  order, so a record with a duplicate id is dropped. When the imported account list is
  empty the operation returns the state as it is, and the imported transactions are
  discarded too. No other field of the state changes.
\<close>

theorem handleImport_appends:
  "(newAccounts = [] \<longrightarrow> handleImport st newAccounts newTransactions = st)
   \<and> take (length (accounts st)) (accounts (handleImport st newAccounts newTransactions)) = accounts st
   \<and> take (length (transactions st)) (transactions (handleImport st newAccounts newTransactions))
       = transactions st
   \<and> drop (length (accounts st)) (accounts (handleImport st newAccounts newTransactions))
       = (if newAccounts = [] then []
          else filter (\<lambda>a. Account.id a \<noteq> [] \<and> Account.id a \<notin> Account.id ` set (accounts st)) newAccounts)
   \<and> drop (length (transactions st)) (transactions (handleImport st newAccounts newTransactions))
       = (if newAccounts = [] then []
          else filter (\<lambda>t. Transaction.id t \<noteq> [] \<and> Transaction.id t \<notin> Transaction.id ` set (transactions st))
                 newTransactions)
   \<and> editingTransaction (handleImport st newAccounts newTransactions) = editingTransaction st
   \<and> txToDelete (handleImport st newAccounts newTransactions) = txToDelete st
   \<and> isTxModalOpen (handleImport st newAccounts newTransactions) = isTxModalOpen st"
  by (simp add: handleImport_def Let_def)

theorem handleImport_appends_witness:
  "accounts (handleImport stateBefore [accountA2, accountNoId, accountC] [txFeb, txJan])
     = accounts stateBefore @ [accountC]
   \<and> transactions (handleImport stateBefore [accountA2, accountNoId, accountC] [txFeb, txJan])
     = transactions stateBefore @ [txJan]
   \<and> handleImport stateBefore [] [txJan] = stateBefore"
proof -
  define H where "H = handleImport stateBefore [accountA2, accountNoId, accountC] [txFeb, txJan]"
  have a: "filter (\<lambda>a. Account.id a \<noteq> [] \<and> Account.id a \<notin> Account.id ` set (accounts stateBefore))
             [accountA2, accountNoId, accountC] = [accountC]"
    by (simp add: stateBefore_def accountA2_def accountNoId_def accountC_def accountA_def accountB_def)
  have t: "filter (\<lambda>t. Transaction.id t \<noteq> [] \<and> Transaction.id t \<notin> Transaction.id ` set (transactions stateBefore))
             [txFeb, txJan] = [txJan]"
    by (simp add: stateBefore_def txFeb_def txJan_def txOther_def)
  note T = handleImport_appends[of "[accountA2, accountNoId, accountC]" stateBefore "[txFeb, txJan]",
      folded H_def]
  from T have ta: "take (length (accounts stateBefore)) (accounts H) = accounts stateBefore"
    and tt: "take (length (transactions stateBefore)) (transactions H) = transactions stateBefore"
    and da: "drop (length (accounts stateBefore)) (accounts H)
        = filter (\<lambda>a. Account.id a \<noteq> [] \<and> Account.id a \<notin> Account.id ` set (accounts stateBefore))
            [accountA2, accountNoId, accountC]"
    and dt: "drop (length (transactions stateBefore)) (transactions H)
        = filter (\<lambda>t. Transaction.id t \<noteq> [] \<and> Transaction.id t \<notin> Transaction.id ` set (transactions stateBefore))
            [txFeb, txJan]"
    by (simp_all del: filter.simps)
  have "accounts H = take (length (accounts stateBefore)) (accounts H)
                       @ drop (length (accounts stateBefore)) (accounts H)"
    by simp
  then have 1: "accounts H = accounts stateBefore @ [accountC]"
    by (simp only: ta da a)
  have "transactions H = take (length (transactions stateBefore)) (transactions H)
                       @ drop (length (transactions stateBefore)) (transactions H)"
    by simp
  then have 2: "transactions H = transactions stateBefore @ [txJan]"
    by (simp only: tt dt t)
  have 3: "handleImport stateBefore [] [txJan] = stateBefore"
    using handleImport_appends[of "[]" stateBefore "[txJan]"] by simp
  show ?thesis using 1 2 3 by (simp only: H_def simp_thms)
qed

section \<open>The import parser on rows\<close>

lemma processLine_marker:
  "includesStr (toUpperCase line) ''---ACCOUNTS---'' \<Longrightarrow>
     processLine toNumber generateId today st line = st\<lparr>currentSection := ACCOUNTS\<rparr>"
  by (simp add: processLine_def Let_def)

lemma processLine_account_row:
  assumes "\<not> includesStr (toUpperCase line) ''---ACCOUNTS---''"
    and "\<not> includesStr (toUpperCase line) ''---TRANSACTIONS---''"
    and "\<not> startsWith (toLowerCase line) ''id,''"
    and cp: "cleanParts = map (\<lambda>p. stripQuotes (trim p)) (splitFields line)"
    and "currentSection st = ACCOUNTS"
  shows "processLine toNumber generateId today st line =
    (if 8 \<le> length cleanParts
     then st\<lparr>ParseState.accounts := ParseState.accounts st
                 @ [makeAccount toNumber (generateId (idCalls st)) today cleanParts],
               idCalls := (if cleanParts ! 0 = [] then Suc (idCalls st) else idCalls st)\<rparr>
     else st)"
  unfolding cp using assms(1,2,3,5) by (simp add: processLine_def Let_def)

lemma example_lines:
  "filter (\<lambda>l. length l > 0) (map trim (splitOn LF (replaceCRLF (stripBOM exampleDocument))))
     = [''---ACCOUNTS---'', exampleRow1, exampleRow2, exampleRow3]"
  by (simp add: exampleDocument_def exampleRow1_def exampleRow2_def exampleRow3_def
      stripBOM_def LF_def CR_def trim_def isSpaceChar_def)

lemma example_marker: "includesStr (toUpperCase ''---ACCOUNTS---'') ''---ACCOUNTS---''"
  by (simp add: toUpperCase_def toUpperChar_def startsWith_def)

lemma example_row1:
  "\<not> includesStr (toUpperCase exampleRow1) ''---ACCOUNTS---''"
  "\<not> includesStr (toUpperCase exampleRow1) ''---TRANSACTIONS---''"
  "\<not> startsWith (toLowerCase exampleRow1) ''id,''"
  "map (\<lambda>p. stripQuotes (trim p)) (splitFields exampleRow1)
     = [''a9'', ''Bank'', ''EUR'', ''Crypto Fund'', ''2024-01-01'', ''12'', ''Low'', ''100'', ''100'']"
  by (simp_all add: exampleRow1_def toUpperCase_def toUpperChar_def toLowerCase_def toLowerChar_def
      startsWith_def DQUOTE_def stripQuotes_def trim_def isSpaceChar_def)

lemma example_row2:
  "\<not> includesStr (toUpperCase exampleRow2) ''---ACCOUNTS---''"
  "\<not> includesStr (toUpperCase exampleRow2) ''---TRANSACTIONS---''"
  "\<not> startsWith (toLowerCase exampleRow2) ''id,''"
  "map (\<lambda>p. stripQuotes (trim p)) (splitFields exampleRow2)
     = [''a8'', ''Bank'', ''USD'', [], ''2024-01-01'', ''12'', ''Low'', ''100'', ''100'']"
  by (simp_all add: exampleRow2_def toUpperCase_def toUpperChar_def toLowerCase_def toLowerChar_def
      startsWith_def DQUOTE_def stripQuotes_def trim_def isSpaceChar_def)

lemma example_row3:
  "\<not> includesStr (toUpperCase exampleRow3) ''---ACCOUNTS---''"
  "\<not> includesStr (toUpperCase exampleRow3) ''---TRANSACTIONS---''"
  "\<not> startsWith (toLowerCase exampleRow3) ''id,''"
  "map (\<lambda>p. stripQuotes (trim p)) (splitFields exampleRow3)
     = [''a7'', ''Bank'', ''USD'', ''Gold Account'', ''2024-01-01'', ''12'', ''Low'']"
  by (simp_all add: exampleRow3_def toUpperCase_def toUpperChar_def toLowerCase_def toLowerChar_def
      startsWith_def DQUOTE_def stripQuotes_def trim_def isSpaceChar_def)

lemma example_parse:
  "parseImportCSV exampleNumber exampleId ''2024-03-01'' exampleDocument =
    ([\<lparr>Account.id = ''a9'', bankName = ''Bank'', currency = TRY,
       investmentType = ''Crypto Fund'', startDate = ''2024-01-01'', maturityPeriod = Fin 12,
       riskLevel = ''Low'', currentBalance = Fin 100, initialCapital = Fin 100\<rparr>,
      \<lparr>Account.id = ''a8'', bankName = ''Bank'', currency = USD,
       investmentType = PARTICIPATION, startDate = ''2024-01-01'', maturityPeriod = Fin 12,
       riskLevel = ''Low'', currentBalance = Fin 100, initialCapital = Fin 100\<rparr>], [])"
proof -
  define s0 where "s0 = \<lparr>currentSection = NONE, ParseState.accounts = [], ParseState.transactions = [], idCalls = 0\<rparr>"
  define step where "step = processLine exampleNumber exampleId ''2024-03-01''"
  have 0: "step s0 ''---ACCOUNTS---'' = s0\<lparr>currentSection := ACCOUNTS\<rparr>"
    unfolding step_def by (rule processLine_marker) (rule example_marker)
  have 1: "step (s0\<lparr>currentSection := ACCOUNTS\<rparr>) exampleRow1 =
      s0\<lparr>currentSection := ACCOUNTS,
         ParseState.accounts := [\<lparr>Account.id = ''a9'', bankName = ''Bank'', currency = TRY,
       investmentType = ''Crypto Fund'', startDate = ''2024-01-01'', maturityPeriod = Fin 12,
       riskLevel = ''Low'', currentBalance = Fin 100, initialCapital = Fin 100\<rparr>]\<rparr>"
    unfolding step_def
    by (subst processLine_account_row[OF example_row1(1,2,3) example_row1(4)[symmetric]])
      (simp_all add: s0_def makeAccount_def strOr_def orElse_def exampleNumber_def TRY_def USD_def)
  have 2: "step (s0\<lparr>currentSection := ACCOUNTS,
         ParseState.accounts := [\<lparr>Account.id = ''a9'', bankName = ''Bank'', currency = TRY,
       investmentType = ''Crypto Fund'', startDate = ''2024-01-01'', maturityPeriod = Fin 12,
       riskLevel = ''Low'', currentBalance = Fin 100, initialCapital = Fin 100\<rparr>]\<rparr>) exampleRow2 =
      s0\<lparr>currentSection := ACCOUNTS,
         ParseState.accounts := [\<lparr>Account.id = ''a9'', bankName = ''Bank'', currency = TRY,
       investmentType = ''Crypto Fund'', startDate = ''2024-01-01'', maturityPeriod = Fin 12,
       riskLevel = ''Low'', currentBalance = Fin 100, initialCapital = Fin 100\<rparr>,
      \<lparr>Account.id = ''a8'', bankName = ''Bank'', currency = USD,
       investmentType = PARTICIPATION, startDate = ''2024-01-01'', maturityPeriod = Fin 12,
       riskLevel = ''Low'', currentBalance = Fin 100, initialCapital = Fin 100\<rparr>]\<rparr>"
    unfolding step_def
    by (subst processLine_account_row[OF example_row2(1,2,3) example_row2(4)[symmetric]])
      (simp_all add: s0_def makeAccount_def strOr_def orElse_def exampleNumber_def TRY_def USD_def)
  have 3: "step st exampleRow3 = st" if "currentSection st = ACCOUNTS" for st
    unfolding step_def
    by (subst processLine_account_row[OF example_row3(1,2,3) example_row3(4)[symmetric]]) (simp_all add: that)
  show ?thesis
    unfolding parseImportCSV_def Let_def example_lines
    by (simp add: 0 1 2 3 s0_def flip: step_def s0_def) (simp add: s0_def)
qed


lemma processLine_transaction_row:
  assumes "\<not> includesStr (toUpperCase line) ''---ACCOUNTS---''"
    and "\<not> includesStr (toUpperCase line) ''---TRANSACTIONS---''"
    and "\<not> startsWith (toLowerCase line) ''id,''"
    and cp: "cleanParts = map (\<lambda>p. stripQuotes (trim p)) (splitFields line)"
    and "currentSection st = TRANSACTIONS"
  shows "processLine toNumber generateId today st line =
    (if 9 \<le> length cleanParts
     then st\<lparr>ParseState.transactions := ParseState.transactions st
                 @ [makeTransaction toNumber (generateId (idCalls st)) today cleanParts],
               idCalls := (if cleanParts ! 0 = [] then Suc (idCalls st) else idCalls st)\<rparr>
     else st)"
  unfolding cp using assms(1,2,3,5) by (simp add: processLine_def Let_def)

lemma makeAccount_enums:
  "currency (makeAccount toNumber freshId today cleanParts)
     = (if cleanParts ! 2 = TRY \<or> cleanParts ! 2 = USD then cleanParts ! 2 else TRY)"
  "investmentType (makeAccount toNumber freshId today cleanParts)
     = (if cleanParts ! 3 = [] then PARTICIPATION else cleanParts ! 3)"
  by (simp_all add: makeAccount_def strOr_def)

text \<open>
  Claim C9 says that an account row is never dropped for its currency or investment
  type, that an unrecognized currency becomes TRY and an unrecognized investment type
  becomes PARTICIPATION, and that a row with fewer than 8 fields (accounts) or 9 fields
  (transactions) produces no record. On the example document the parser keeps the first
  row and replaces its unrecognized currency \<open>EUR\<close> by TRY, but it stores the
  unrecognized investment type \<open>Crypto Fund\<close> as it is: only an empty investment type
  (the second row) becomes PARTICIPATION. The third row has seven fields and produces no
  record.
\<close>

theorem import_investment_type_unchecked:
  "map Account.id (fst (parseImportCSV exampleNumber exampleId ''2024-03-01'' exampleDocument))
     = [''a9'', ''a8'']
   \<and> map currency (fst (parseImportCSV exampleNumber exampleId ''2024-03-01'' exampleDocument))
     = [TRY, USD]
   \<and> map investmentType (fst (parseImportCSV exampleNumber exampleId ''2024-03-01'' exampleDocument))
     = [''Crypto Fund'', PARTICIPATION]
   \<and> ''Crypto Fund'' \<notin> set [PARTICIPATION, SUKUK, GOLD, REAL_ESTATE]"
  by (simp add: example_parse) (simp add: PARTICIPATION_def SUKUK_def GOLD_def REAL_ESTATE_def)

section \<open>The transaction handlers\<close>

text \<open>
  After a heal of an existing account, every account with that id has the
  \<open>currentBalance\<close> of the last transaction of the healed chain, or the
  \<open>initialCapital\<close> of the account found when the chain is empty. The healing handlers
  \<open>handleSaveTransaction\<close> and \<open>confirmDeleteTransaction\<close> inherit this.
\<close>

lemma heal_balance:
  assumes f: "find (\<lambda>a. Account.id a = accId) accs = Some account"
    and a: "a \<in> set (snd (healTransactionChain getTime txs accId accs))" "Account.id a = accId"
  shows "Account.currentBalance a =
    (if chainOf getTime accId (fst (healTransactionChain getTime txs accId accs)) = []
     then initialCapital account
     else Transaction.currentBalance
            (last (chainOf getTime accId (fst (healTransactionChain getTime txs accId accs)))))"
proof -
  define fb where "fb = (if chainOf getTime accId txs \<noteq> []
                         then Transaction.currentBalance (last (chainOf getTime accId txs))
                         else initialCapital account)"
  have c: "chainOf getTime accId (fst (healTransactionChain getTime txs accId accs))
      = healMap (orElse (initialCapital account) (Fin 0)) (chainOf getTime accId txs)"
    by (simp only: heal_Some[OF f] fst_conv chainOf_healed)
  have "a \<in> set (map (\<lambda>a. if Account.id a = accId then a\<lparr>Account.currentBalance := fb\<rparr> else a) accs)"
    using a(1) by (simp only: heal_Some[OF f] snd_conv fb_def)
  then obtain x where "a = (if Account.id x = accId then x\<lparr>Account.currentBalance := fb\<rparr> else x)"
    unfolding set_map by (elim imageE)
  then have "Account.currentBalance a = fb"
    using a(2) by (cases "Account.id x = accId") simp_all
  then show ?thesis
    unfolding c by (simp add: fb_def healMap_last)
qed

lemma handleSaveTransaction_balance:
  assumes "find (\<lambda>a. Account.id a = accountId tx) (accounts st) = Some account"
    and "a \<in> set (accounts (handleSaveTransaction getTime st tx))" "Account.id a = accountId tx"
  shows "Account.currentBalance a =
    (if chainOf getTime (accountId tx) (transactions (handleSaveTransaction getTime st tx)) = []
     then initialCapital account
     else Transaction.currentBalance
            (last (chainOf getTime (accountId tx) (transactions (handleSaveTransaction getTime st tx)))))"
  using assms(2,3) heal_balance[OF assms(1), of a getTime]
  by (simp add: handleSaveTransaction_def Let_def)

lemma confirmDeleteTransaction_balance:
  assumes "txToDelete st = Some del"
    and "find (\<lambda>a. Account.id a = accountId del) (accounts st) = Some account"
    and "a \<in> set (accounts (confirmDeleteTransaction getTime st))" "Account.id a = accountId del"
  shows "Account.currentBalance a =
    (if chainOf getTime (accountId del) (transactions (confirmDeleteTransaction getTime st)) = []
     then initialCapital account
     else Transaction.currentBalance
            (last (chainOf getTime (accountId del) (transactions (confirmDeleteTransaction getTime st)))))"
  using assms(3,4) heal_balance[OF assms(2), of a getTime]
  by (simp add: confirmDeleteTransaction_def Let_def assms(1))

lemma enteredTx_fields:
  "accountId enteredTx = ''acc-1''" "date enteredTx = ''2024-01-01''"
  "Transaction.currentBalance enteredTx = Fin 1000" "previousBalance enteredTx = Fin 1350"
  "calculatedProfit enteredTx = Fin (- 350)"
  by (simp_all add: enteredTx_def handleSave_def Let_def accountA_def calculateProfitStats_def)

lemma entered_chain:
  "chainOf exampleTime ''acc-1'' [txFeb, txOther, enteredTx] = [enteredTx, txFeb]"
  by (simp add: chainOf_def sortCmp_def dateCmp_def dateTime_def enteredTx_fields)
     (simp add: sample_defs)

text \<open>
  Claim C8 says that after every create, edit or delete of a transaction the account's
  \<open>currentBalance\<close> is the \<open>currentBalance\<close> of its most recent transaction by date.
  \<open>handleAddTransaction\<close> does not heal: it appends the new transaction and copies its
  \<open>currentBalance\<close> into the account. For an entry dated before an existing transaction
  (here a balance of 1000 dated 2024-01-01, entered when the account holds a transaction
  of 2024-02-01 with balance 1350) the account balance becomes 1000, while the most
  recent transaction by date has balance 1350. \<open>handleSaveTransaction\<close> on the same
  input gives 1350.
\<close>

theorem handleAddTransaction_backdated:
  "transactions (handleAddTransaction stateBefore enteredTx) = [txFeb, txOther, enteredTx]
   \<and> map Account.id (accounts (handleAddTransaction stateBefore enteredTx)) = [''acc-1'', ''acc-2'']
   \<and> map Account.currentBalance (accounts (handleAddTransaction stateBefore enteredTx))
       = [Fin 1000, Fin 12500]
   \<and> chainOf exampleTime ''acc-1'' (transactions (handleAddTransaction stateBefore enteredTx))
       = [enteredTx, txFeb]
   \<and> Transaction.currentBalance
        (last (chainOf exampleTime ''acc-1'' (transactions (handleAddTransaction stateBefore enteredTx))))
       = Fin 1350
   \<and> map Account.currentBalance (accounts (handleSaveTransaction exampleTime stateBefore enteredTx))
       = [Fin 1350, Fin 12500]"
proof -
  have t: "transactions (handleAddTransaction stateBefore enteredTx) = [txFeb, txOther, enteredTx]"
    by (simp add: handleAddTransaction_def stateBefore_def)
  have a: "accounts (handleAddTransaction stateBefore enteredTx)
      = [accountA\<lparr>Account.currentBalance := Fin 1000\<rparr>, accountB]"
    by (simp add: handleAddTransaction_def stateBefore_def enteredTx_fields accountA_def accountB_def)
  have f: "find (\<lambda>a. Account.id a = ''acc-1'') [accountA\<lparr>Account.currentBalance := Fin 1350\<rparr>, accountB]
      = Some (accountA\<lparr>Account.currentBalance := Fin 1350\<rparr>)"
    by (simp add: accountA_def)
  have s: "accounts (handleSaveTransaction exampleTime stateBefore enteredTx)
      = [accountA\<lparr>Account.currentBalance := Fin 1350\<rparr>, accountB]"
    by (simp add: handleSaveTransaction_def stateBefore_def Let_def enteredTx_fields heal_Some[OF f]
        entered_chain)
       (simp add: accountA_def accountB_def txFeb_def)
  show ?thesis
    by (simp add: t a s entered_chain) (simp add: accountA_def accountB_def txFeb_def)
qed

end
